theory Spec2Isabelle
  imports Main
begin

section \<open>Python values handled by \<^verbatim>\<open>writer.py\<close>\<close>

text \<open>
  The arguments of the writer are plain Python objects. A dictionary is an association
  list with string keys (the keys become keyword names under \<^verbatim>\<open>**\<close>), in insertion
  order. \<open>PGen\<close> is any other iterable object (a generator, an iterator), given by the
  items it yields. \<open>PObj\<close> is an object built by the component catalogue: its class
  name and its attributes; such objects are taken to be truthy, not iterable and not
  mappings.
\<close>

datatype pyval =
    PNone
  | PBool bool
  | PInt int
  | PStr string
  | PList "pyval list"
  | PTuple "pyval list"
  | PDict "(string \<times> pyval) list"
  | PGen "pyval list"
  | PObj string "(string \<times> pyval) list"

datatype error =
    NotReady
  | AttributeError
  | TypeError
  | ScopeViolation
  | ValidationError

text \<open>
  \<open>NotReady\<close> is the \<^verbatim>\<open>ValueError("This writer has not yet been created. ...")\<close>
  of \<^verbatim>\<open>XMLWriterMixin\<close>; \<open>ScopeViolation\<close> is the error of the streaming serializer
  for an element closed out of order or a write after the final close;
  \<open>ValidationError\<close> is left to the constructors of the component catalogue.
\<close>

datatype result = Ok | Raised error

subsection \<open>Truth value, \<^verbatim>\<open>isinstance\<close>, iteration, \<^verbatim>\<open>**\<close>\<close>

fun truthy :: "pyval \<Rightarrow> bool" where
  "truthy PNone = False"
| "truthy (PBool b) = b"
| "truthy (PInt i) = (i \<noteq> 0)"
| "truthy (PStr s) = (s \<noteq> [])"
| "truthy (PList xs) = (xs \<noteq> [])"
| "truthy (PTuple xs) = (xs \<noteq> [])"
| "truthy (PDict kv) = (kv \<noteq> [])"
| "truthy (PGen xs) = True"
| "truthy (PObj c a) = True"

text \<open>\<^verbatim>\<open>s or {}\<close>\<close>

definition or_empty :: "pyval \<Rightarrow> pyval" where
  "or_empty s = (if truthy s then s else PDict [])"

fun is_Iterable :: "pyval \<Rightarrow> bool" where
  "is_Iterable (PStr s) = True"
| "is_Iterable (PList xs) = True"
| "is_Iterable (PTuple xs) = True"
| "is_Iterable (PDict kv) = True"
| "is_Iterable (PGen xs) = True"
| "is_Iterable v = False"

fun is_basestring :: "pyval \<Rightarrow> bool" where
  "is_basestring (PStr s) = True"
| "is_basestring v = False"

fun is_Mapping :: "pyval \<Rightarrow> bool" where
  "is_Mapping (PDict kv) = True"
| "is_Mapping v = False"

fun is_list_or_tuple :: "pyval \<Rightarrow> bool" where
  "is_list_or_tuple (PList xs) = True"
| "is_list_or_tuple (PTuple xs) = True"
| "is_list_or_tuple v = False"

text \<open>
  \<^verbatim>\<open>
  def ensure_iterable(obj):
      if not isinstance(obj, Iterable) or isinstance(obj, basestring) or isinstance(obj, Mapping):
          return [obj]
      return obj
  \<close>
\<close>

definition ensure_iterable :: "pyval \<Rightarrow> pyval" where
  "ensure_iterable obj =
     (if \<not> is_Iterable obj \<or> is_basestring obj \<or> is_Mapping obj then PList [obj] else obj)"

text \<open>
  \<^verbatim>\<open>for s in v\<close>: the items, or \<^verbatim>\<open>TypeError\<close> for an object that is not iterable.
  A dictionary yields its keys, a string its characters.
\<close>

fun iter_items :: "pyval \<Rightarrow> error + pyval list" where
  "iter_items (PList xs) = Inr xs"
| "iter_items (PTuple xs) = Inr xs"
| "iter_items (PGen xs) = Inr xs"
| "iter_items (PDict kv) = Inr (map (\<lambda>p. PStr (fst p)) kv)"
| "iter_items (PStr s) = Inr (map (\<lambda>c. PStr [c]) s)"
| "iter_items v = Inl TypeError"

text \<open>\<^verbatim>\<open>f(**m)\<close>: the keyword arguments, or \<^verbatim>\<open>TypeError\<close> when \<open>m\<close> is not a mapping.\<close>

fun splat :: "pyval \<Rightarrow> error + (string \<times> pyval) list" where
  "splat (PDict kv) = Inr kv"
| "splat v = Inl TypeError"

text \<open>\<^verbatim>\<open>obj.name\<close>\<close>

fun get_attr :: "pyval \<Rightarrow> string \<Rightarrow> error + pyval" where
  "get_attr (PObj c attrs) n = (case map_of attrs n of None \<Rightarrow> Inl AttributeError | Some v \<Rightarrow> Inr v)"
| "get_attr v n = Inl AttributeError"

section \<open>The component catalogue\<close>

text \<open>
  The classes \<^verbatim>\<open>AnalysisSoftware\<close>, \<^verbatim>\<open>Person\<close>, \<^verbatim>\<open>CVList\<close>, ... live in
  \<^verbatim>\<open>components.py\<close>, which is not part of the sources at hand. Their constructors are
  a parameter of the model: \<open>ctor c args kw\<close> is the call \<^verbatim>\<open>self.c(*args, **kw)\<close>,
  which returns the object or raises.
\<close>

type_synonym ctor = "string \<Rightarrow> pyval list \<Rightarrow> (string \<times> pyval) list \<Rightarrow> error + pyval"

text \<open>
  A stand-in catalogue to run the model on concrete inputs: every constructor accepts
  what it is given, keeps it as attributes, and has \<open>id\<close> 1 unless told otherwise.
\<close>

definition demo_catalogue :: ctor where
  "demo_catalogue c args kw = Inr (PObj c (kw @ [(''args'', PList args), (''id'', PInt 1)]))"

text \<open>A catalogue whose constructors all insist on an argument, as a required field would.\<close>

definition strict_catalogue :: ctor where
  "strict_catalogue c args kw =
     (if args = [] \<and> kw = [] then Inl ValidationError else Inr (PObj c (kw @ [(''args'', PList args)])))"

text \<open>Sequencing of computations that may raise.\<close>

definition try_with :: "error + 'a \<Rightarrow> ('a \<Rightarrow> error + 'b) \<Rightarrow> error + 'b" where
  "try_with r f = (case r of Inl e \<Rightarrow> Inl e | Inr a \<Rightarrow> f a)"

text \<open>\<^verbatim>\<open>f(**(s or {}))\<close>\<close>

definition call_kw :: "((string \<times> pyval) list \<Rightarrow> error + 'a) \<Rightarrow> pyval \<Rightarrow> error + 'a" where
  "call_kw f s = try_with (splat (or_empty s)) f"

text \<open>\<^verbatim>\<open>self.c(**(s or {}))\<close>\<close>

definition build :: "ctor \<Rightarrow> string \<Rightarrow> pyval \<Rightarrow> error + pyval" where
  "build k c s = call_kw (k c []) s"

text \<open>The body of a list comprehension: the first item that raises ends it.\<close>

fun comprehension :: "(pyval \<Rightarrow> error + 'a) \<Rightarrow> pyval list \<Rightarrow> error + 'a list" where
  "comprehension f [] = Inr []"
| "comprehension f (s # ss) =
     (case f s of Inl e \<Rightarrow> Inl e
      | Inr v \<Rightarrow> (case comprehension f ss of Inl e \<Rightarrow> Inl e | Inr vs \<Rightarrow> Inr (v # vs)))"

text \<open>\<^verbatim>\<open>[f(s) for s in v]\<close>\<close>

definition for_each_in :: "(pyval \<Rightarrow> error + 'a) \<Rightarrow> pyval \<Rightarrow> error + 'a list" where
  "for_each_in f v = try_with (iter_items v) (comprehension f)"

text \<open>\<^verbatim>\<open>[self.c(**(s or {})) for s in ensure_iterable(arg)]\<close>\<close>

definition entities :: "ctor \<Rightarrow> string \<Rightarrow> pyval \<Rightarrow> error + pyval list" where
  "entities k c arg = for_each_in (build k c) (ensure_iterable arg)"

text \<open>
  A call \<^verbatim>\<open>f(**kw)\<close> of a function with the required parameters \<open>req\<close> and the
  defaults \<open>dflt\<close>: a keyword that names no parameter and a required parameter left
  out are both a \<^verbatim>\<open>TypeError\<close>; otherwise each parameter has the value given, or its
  default.
\<close>

definition bind_call ::
  "string list \<Rightarrow> (string \<times> pyval) list \<Rightarrow> (string \<times> pyval) list \<Rightarrow> error + (string \<Rightarrow> pyval)" where
  "bind_call req dflt kw =
     (if list_all (\<lambda>p. fst p \<in> set (req @ map fst dflt)) kw \<and> list_all (\<lambda>n. n \<in> set (map fst kw)) req
      then Inr (\<lambda>n. case map_of kw n of
                       Some v \<Rightarrow> v
                     | None \<Rightarrow> (case map_of dflt n of Some d \<Rightarrow> d | None \<Rightarrow> PNone))
      else Inl TypeError)"

section \<open>The streaming serializer and the output sink\<close>

text \<open>
  The incremental XML writer (lxml's \<^verbatim>\<open>xmlfile\<close>) is an external collaborator. Its
  state is the stack of open elements (innermost first), what has been written so far,
  what has been flushed to the sink, and whether the final close has happened.
\<close>

type_synonym attributes = "(string \<times> pyval) list"

type_synonym handle = "string \<times> attributes"

datatype event = StartEl string attributes | EndEl string | Node pyval

record serializer =
  scopes :: "string list"
  events :: "event list"
  flushed :: "event list"
  finished :: bool

definition new_serializer :: serializer where
  "new_serializer = \<lparr>scopes = [], events = [], flushed = [], finished = False\<rparr>"

text \<open>
  Modelled from the spec: entering an element handle (sections 4.1 and 6). It begins the
  element inside the innermost open one; like every operation of the serializer, it
  fails after the final close.
\<close>

definition handle_enter :: "handle \<Rightarrow> serializer \<Rightarrow> error + serializer" where
  "handle_enter h w =
     (if finished w then Inl ScopeViolation
      else Inr (w\<lparr>scopes := fst h # scopes w, events := events w @ [StartEl (fst h) (snd h)]\<rparr>))"

text \<open>
  Modelled from the spec: leaving an element handle. It ends the most recently begun
  unclosed element and fails on any other (strict nesting).
\<close>

definition handle_exit :: "handle \<Rightarrow> serializer \<Rightarrow> error + serializer" where
  "handle_exit h w =
     (if finished w then Inl ScopeViolation
      else (case scopes w of
              [] \<Rightarrow> Inl ScopeViolation
            | m # ms \<Rightarrow> if m = fst h then Inr (w\<lparr>scopes := ms, events := events w @ [EndEl (fst h)]\<rparr>)
                        else Inl ScopeViolation))"

text \<open>Modelled from the spec: a node is written into the current element.\<close>

definition serializer_write :: "pyval \<Rightarrow> serializer \<Rightarrow> error + serializer" where
  "serializer_write v w =
     (if finished w then Inl ScopeViolation else Inr (w\<lparr>events := events w @ [Node v]\<rparr>))"

text \<open>Modelled from the spec: flushing hands what has been written to the sink.\<close>

definition serializer_flush :: "serializer \<Rightarrow> error + serializer" where
  "serializer_flush w =
     (if finished w then Inl ScopeViolation else Inr (w\<lparr>flushed := events w\<rparr>))"

text \<open>
  Modelled from the spec: \<^verbatim>\<open>xmlfile.__exit__\<close>, the final close. It needs every element
  closed, passes what is left to the sink and ends the writer.
\<close>

definition xmlfile_exit :: "serializer \<Rightarrow> error + serializer" where
  "xmlfile_exit w =
     (if finished w then Inl ScopeViolation
      else if scopes w \<noteq> [] then Inl ScopeViolation
      else Inr (w\<lparr>flushed := events w, finished := True\<rparr>))"

text \<open>
  Modelled from the spec: the helper \<^verbatim>\<open>element(writer, name, **attrs)\<close> of
  \<^verbatim>\<open>components.py\<close>, which asks the writer for an element handle. On the unset writer \<^verbatim>\<open>None\<close> the
  attribute access raises \<^verbatim>\<open>AttributeError\<close>: this is the error that the
  \<^verbatim>\<open>except AttributeError\<close> clauses of \<^verbatim>\<open>XMLWriterMixin\<close> are there to catch. The
  handle is the element's name with its attributes.
\<close>

definition element_helper :: "serializer option \<Rightarrow> string \<Rightarrow> attributes \<Rightarrow> error + handle" where
  "element_helper w n attrs = (case w of None \<Rightarrow> Inl AttributeError | Some x \<Rightarrow> Inr (n, attrs))"

section \<open>The document session\<close>

text \<open>
  \<^verbatim>\<open>MzIdentMLWriter\<close>: the vocabulary list, the writer (\<^verbatim>\<open>None\<close> until
  \<^verbatim>\<open>_begin\<close>), the handle of the root element, and whether \<^verbatim>\<open>outfile\<close> has been
  closed. The \<^verbatim>\<open>xmlfile\<close> object shares the writer's state.
\<close>

record session =
  vocabularies :: "pyval list"
  writer :: "serializer option"
  toplevel :: "handle option"
  outfile_closed :: bool

text \<open>\<^verbatim>\<open>__init__\<close>: the vocabulary list is what \<^verbatim>\<open>ComponentDispatcher.__init__\<close> stores.\<close>

definition MzIdentMLWriter_init :: "pyval list \<Rightarrow> session" where
  "MzIdentMLWriter_init vs = \<lparr>vocabularies = vs, writer = None, toplevel = None, outfile_closed = False\<rparr>"

type_synonym action = "session \<Rightarrow> result \<times> session"

text \<open>Sequencing: a raised error ends the operation and leaves the state as it is then.\<close>

definition on_value :: "error + 'a \<Rightarrow> ('a \<Rightarrow> action) \<Rightarrow> action" where
  "on_value r f s = (case r of Inl e \<Rightarrow> (Raised e, s) | Inr a \<Rightarrow> f a s)"

definition and_then :: "action \<Rightarrow> action \<Rightarrow> action" where
  "and_then m f s = (case m s of (Ok, s1) \<Rightarrow> f s1 | (Raised e, s1) \<Rightarrow> (Raised e, s1))"

text \<open>A step of the serializer run on \<^verbatim>\<open>self.writer\<close>; on \<^verbatim>\<open>None\<close> it is an \<^verbatim>\<open>AttributeError\<close>.\<close>

definition on_writer :: "(serializer \<Rightarrow> error + serializer) \<Rightarrow> action" where
  "on_writer f s =
     (case writer s of
        None \<Rightarrow> (Raised AttributeError, s)
      | Some w \<Rightarrow> (case f w of Inl e \<Rightarrow> (Raised e, s) | Inr w1 \<Rightarrow> (Ok, s\<lparr>writer := Some w1\<rparr>)))"

subsection \<open>\<^verbatim>\<open>XMLWriterMixin\<close>\<close>

text \<open>
  The \<^verbatim>\<open>except AttributeError\<close> clause of both methods: the dedicated error when the
  writer is unset, the original error otherwise.
\<close>

definition not_ready_guard :: "action \<Rightarrow> action" where
  "not_ready_guard m s =
     (case m s of
        (Raised AttributeError, s1) \<Rightarrow>
          if writer s1 = None then (Raised NotReady, s1) else (Raised AttributeError, s1)
      | r \<Rightarrow> r)"

text \<open>
  \<^verbatim>\<open>element_name.element(self.writer, **kwargs)\<close> for a name that is not a string: a
  component object opens the element of its class; any other object has no such method.
\<close>

fun element_of :: "serializer option \<Rightarrow> pyval \<Rightarrow> attributes \<Rightarrow> error + handle" where
  "element_of w (PStr n) attrs = element_helper w n attrs"
| "element_of w (PObj c a) attrs = element_helper w c attrs"
| "element_of w v attrs = Inl AttributeError"

text \<open>
  \<^verbatim>\<open>with self.element(element_name, **kwargs): ...\<close> up to the \<^verbatim>\<open>yield\<close>: the
  handle is made and entered; and from the \<^verbatim>\<open>yield\<close> on: the handle is left. The
  body of the \<^verbatim>\<open>with\<close> block, which runs in between under the same
  \<^verbatim>\<open>except\<close> clause, is the caller's code.
\<close>

definition element :: "pyval \<Rightarrow> attributes \<Rightarrow> action" where
  "element element_name kwargs s =
     not_ready_guard
       (on_value (element_of (writer s) element_name kwargs) (\<lambda>h. on_writer (handle_enter h))) s"

definition element_leave :: "handle \<Rightarrow> action" where
  "element_leave h = not_ready_guard (on_writer (handle_exit h))"

text \<open>\<^verbatim>\<open>self.writer.write(*args, **kwargs)\<close> under the same guard.\<close>

definition XMLWriterMixin_write :: "pyval \<Rightarrow> action" where
  "XMLWriterMixin_write v = not_ready_guard (on_writer (serializer_write v))"

subsection \<open>\<^verbatim>\<open>DocumentSection\<close>\<close>

text \<open>
  A section is given a writer, here the session's, and opens its own element on it
  through the helper; it does not go through the guard.
\<close>

definition DocumentSection_enter :: "string \<Rightarrow> action" where
  "DocumentSection_enter sec s =
     on_value (element_helper (writer s) sec []) (\<lambda>h. on_writer (handle_enter h)) s"

definition DocumentSection_exit :: "string \<Rightarrow> action" where
  "DocumentSection_exit sec =
     and_then (on_writer (handle_exit (sec, []))) (on_writer serializer_flush)"

subsection \<open>Entering and leaving the session\<close>

text \<open>
  \<^verbatim>\<open>
  def _begin(self):
      self.writer = self.xmlfile.__enter__()

  def __enter__(self):
      self._begin()
      self.toplevel = element(self.writer, "MzIdentML")
      self.toplevel.__enter__()
  \<close>
\<close>

definition MzIdentMLWriter_begin :: "session \<Rightarrow> session" where
  "MzIdentMLWriter_begin s = s\<lparr>writer := Some new_serializer\<rparr>"

definition MzIdentMLWriter_enter :: action where
  "MzIdentMLWriter_enter s =
     (let s1 = MzIdentMLWriter_begin s in
      on_value (element_helper (writer s1) ''MzIdentML'' [])
        (\<lambda>h s2. on_writer (handle_enter h) (s2\<lparr>toplevel := Some h\<rparr>)) s1)"

text \<open>
  \<^verbatim>\<open>
  def __exit__(self, exc_type, exc_value, traceback):
      self.toplevel.__exit__(exc_type, exc_value, traceback)
      self.writer.flush()
      self.xmlfile.__exit__(exc_type, exc_value, traceback)
      self.outfile.close()
  \<close>
  The four statements run in sequence, with no \<^verbatim>\<open>try\<close> around them. \<open>exc\<close> is the
  exception leaving the body, if any; it is handed to the collaborators, whose
  interface gives it no effect on what they do.
\<close>

definition MzIdentMLWriter_exit :: "error option \<Rightarrow> action" where
  "MzIdentMLWriter_exit exc s =
     (case toplevel s of
        None \<Rightarrow> (Raised AttributeError, s)
      | Some h \<Rightarrow>
          and_then (on_writer (handle_exit h))
         (and_then (on_writer serializer_flush)
         (and_then (on_writer xmlfile_exit)
                   (\<lambda>s3. (Ok, s3\<lparr>outfile_closed := True\<rparr>)))) s)"

text \<open>\<^verbatim>\<open>close\<close>\<close>

definition close :: action where
  "close s = (Ok, s\<lparr>outfile_closed := True\<rparr>)"

section \<open>The section operations\<close>

text \<open>
  Modelled from the spec: \<^verbatim>\<open>component.write(writer)\<close> of \<^verbatim>\<open>components.py\<close>. The
  component serialises itself, as one subtree, on the writer it is handed, through the
  serializer's own operations; the section operations hand it \<^verbatim>\<open>self.writer\<close> as it
  is, outside the guard of \<^verbatim>\<open>XMLWriterMixin\<close>.
\<close>

definition component_write :: "pyval \<Rightarrow> action" where
  "component_write v = on_writer (serializer_write v)"

text \<open>\<^verbatim>\<open>self.c(*args, **kw).write(self.writer)\<close>\<close>

definition write_new :: "ctor \<Rightarrow> string \<Rightarrow> pyval list \<Rightarrow> attributes \<Rightarrow> action" where
  "write_new k c args kw = on_value (k c args kw) component_write"

text \<open>
  \<^verbatim>\<open>
  def controlled_vocabularies(self, vocabularies=None):
      if vocabularies is None:
          vocabularies = []
      self.vocabularies.extend(vocabularies)
      cvlist = self.CVList(self.vocabularies)
      cvlist.write(self.writer)
  \<close>
\<close>

definition controlled_vocabularies :: "ctor \<Rightarrow> pyval \<Rightarrow> action" where
  "controlled_vocabularies k vocabs =
     on_value (iter_items (if vocabs = PNone then PList [] else vocabs))
       (\<lambda>vs s. let s1 = s\<lparr>vocabularies := vocabularies s @ vs\<rparr>
               in write_new k ''CVList'' [PList (vocabularies s1)] [] s1)"

text \<open>
  \<^verbatim>\<open>
  def providence(self, software=tuple(), owner=None, organization=None):
      software = [self.AnalysisSoftware(**(s or {})) for s in ensure_iterable(software)]
      owner = self.Person(**(owner or {}))
      organization = self.Organization(**(organization or {}))

      self.GenericCollection("AnalysisSoftwareList", software).write(self.writer)
      self.Provider(contact=owner.id).write(self.writer)
      self.AuditCollection([owner], [organization]).write(self.writer)
  \<close>
\<close>

definition providence :: "ctor \<Rightarrow> pyval \<Rightarrow> pyval \<Rightarrow> pyval \<Rightarrow> action" where
  "providence k software owner organization =
     on_value (entities k ''AnalysisSoftware'' software) (\<lambda>sw.
     on_value (build k ''Person'' owner) (\<lambda>ow.
     on_value (build k ''Organization'' organization) (\<lambda>org.
     and_then (write_new k ''GenericCollection'' [PStr ''AnalysisSoftwareList'', PList sw] [])
    (on_value (get_attr ow ''id'') (\<lambda>oid.
     and_then (write_new k ''Provider'' [] [(''contact'', oid)])
              (write_new k ''AuditCollection'' [PList [ow], PList [org]] []))))))"

text \<open>
  \<^verbatim>\<open>
  def inputs(self, source_files=tuple(), search_databases=tuple(), spectra_data=tuple()):
      source_files = [self.SourceFile(**(s or {})) for s in ensure_iterable(source_files)]
      search_databases = [self.SearchDatabase(**(s or {})) for s in ensure_iterable(search_databases)]
      spectra_data = [self.SpectraData(**(s or {})) for s in ensure_iterable(spectra_data)]

      self.Inputs(source_files, search_databases, spectra_data).write(self.writer)
  \<close>
\<close>

definition inputs :: "ctor \<Rightarrow> pyval \<Rightarrow> pyval \<Rightarrow> pyval \<Rightarrow> action" where
  "inputs k source_files search_databases spectra_data =
     on_value (entities k ''SourceFile'' source_files) (\<lambda>sf.
     on_value (entities k ''SearchDatabase'' search_databases) (\<lambda>sd.
     on_value (entities k ''SpectraData'' spectra_data) (\<lambda>sp.
     write_new k ''Inputs'' [PList sf, PList sd, PList sp] [])))"

text \<open>
  \<^verbatim>\<open>
  def spectrum_identification_protocol(self, search_type='ms-ms search', analysis_software_id=1, id=1,
                                       additional_search_params=_t, enzymes=_t, modification_params=_t,
                                       fragment_tolerance=None, parent_tolerance=None, threshold=None):
      enzymes = [self.Enzyme(**(s or {})) for s in ensure_iterable(enzymes)]
      modification_params = [self.SearchModification(**(s or {})) for s in ensure_iterable(modification_params)]
      if isinstance(fragment_tolerance, (list, tuple)):
          fragment_tolerance = self.FragmentTolerance(*fragment_tolerance)
      if isinstance(parent_tolerance, (list, tuple)):
          parent_tolerance = self.ParentTolerance(*parent_tolerance)
      threshold = self.Threshold(threshold)
      protocol = self.SpectrumIdentificationProtocol(
          search_type, analysis_software_id, id, additional_search_params, enzymes, modification_params,
          fragment_tolerance, parent_tolerance, threshold)
      protocol.write(self.writer)
  \<close>
  \<open>tolerance\<close> is one of the two \<^verbatim>\<open>isinstance\<close> statements; \<open>protocol_arguments\<close> is
  the list of positional arguments that the protocol's constructor receives.
\<close>

definition tolerance :: "ctor \<Rightarrow> string \<Rightarrow> pyval \<Rightarrow> error + pyval" where
  "tolerance k c v =
     (if is_list_or_tuple v then try_with (iter_items v) (\<lambda>xs. k c xs []) else Inr v)"

definition protocol_arguments ::
  "ctor \<Rightarrow> pyval \<Rightarrow> pyval \<Rightarrow> pyval \<Rightarrow> pyval \<Rightarrow> pyval \<Rightarrow> pyval \<Rightarrow> pyval \<Rightarrow> pyval \<Rightarrow> pyval
     \<Rightarrow> error + pyval list" where
  "protocol_arguments k search_type analysis_software_id ident additional_search_params
       enzymes modification_params fragment_tolerance parent_tolerance threshold =
     try_with (entities k ''Enzyme'' enzymes) (\<lambda>es.
     try_with (entities k ''SearchModification'' modification_params) (\<lambda>ms.
     try_with (tolerance k ''FragmentTolerance'' fragment_tolerance) (\<lambda>ft.
     try_with (tolerance k ''ParentTolerance'' parent_tolerance) (\<lambda>pt.
     try_with (k ''Threshold'' [threshold] []) (\<lambda>th.
     Inr [search_type, analysis_software_id, ident, additional_search_params,
          PList es, PList ms, ft, pt, th])))))"

definition spectrum_identification_protocol ::
  "ctor \<Rightarrow> pyval \<Rightarrow> pyval \<Rightarrow> pyval \<Rightarrow> pyval \<Rightarrow> pyval \<Rightarrow> pyval \<Rightarrow> pyval \<Rightarrow> pyval \<Rightarrow> pyval
     \<Rightarrow> action" where
  "spectrum_identification_protocol k search_type analysis_software_id ident
       additional_search_params enzymes modification_params fragment_tolerance
       parent_tolerance threshold =
     on_value (protocol_arguments k search_type analysis_software_id ident
                 additional_search_params enzymes modification_params fragment_tolerance
                 parent_tolerance threshold)
       (\<lambda>args. write_new k ''SpectrumIdentificationProtocol'' args [])"

subsection \<open>Identification results and items\<close>

text \<open>
  \<^verbatim>\<open>
  def _spectrum_identification_item(self, calculated_mass_to_charge, experimental_mass_to_charge,
                                    charge_state, peptide_id, peptide_evidence_id, score, id, cv_params=_t,
                                    pass_threshold=True, rank=1):
          return self.SpectrumIdentificationItem(
              calculated_mass_to_charge, experimental_mass_to_charge,
              charge_state, peptide_id, peptide_evidence_id, score, id,
              cv_params=ensure_iterable(cv_params), pass_threshold=pass_threshold, rank=rank)
  \<close>
\<close>

definition item_required :: "string list" where
  "item_required = [''calculated_mass_to_charge'', ''experimental_mass_to_charge'',
     ''charge_state'', ''peptide_id'', ''peptide_evidence_id'', ''score'', ''id'']"

definition item_defaults :: "(string \<times> pyval) list" where
  "item_defaults = [(''cv_params'', PTuple []), (''pass_threshold'', PBool True), (''rank'', PInt 1)]"

definition spectrum_identification_item :: "ctor \<Rightarrow> (string \<times> pyval) list \<Rightarrow> error + pyval" where
  "spectrum_identification_item k kw =
     try_with (bind_call item_required item_defaults kw) (\<lambda>a.
       k ''SpectrumIdentificationItem'' (map a item_required)
         [(''cv_params'', ensure_iterable (a ''cv_params'')),
          (''pass_threshold'', a ''pass_threshold''),
          (''rank'', a ''rank'')])"

text \<open>
  \<^verbatim>\<open>
  def _spectrum_identification_result(self, spectrum_id, id, spectra_data_id=1, identifications=_t):
      return self.SpectrumIdentificationResult(
          spectra_data_id=spectra_data_id,
          spectrum_id=spectrum_id,
          id=id,
          identifications=[self._spectrum_identification_item(**(s or {}))
                           for s in ensure_iterable(identifications)])
  \<close>
\<close>

definition result_required :: "string list" where
  "result_required = [''spectrum_id'', ''id'']"

definition result_defaults :: "(string \<times> pyval) list" where
  "result_defaults = [(''spectra_data_id'', PInt 1), (''identifications'', PTuple [])]"

definition spectrum_identification_result :: "ctor \<Rightarrow> (string \<times> pyval) list \<Rightarrow> error + pyval" where
  "spectrum_identification_result k kw =
     try_with (bind_call result_required result_defaults kw) (\<lambda>a.
     try_with (for_each_in (call_kw (spectrum_identification_item k))
                 (ensure_iterable (a ''identifications''))) (\<lambda>items.
       k ''SpectrumIdentificationResult'' []
         [(''spectra_data_id'', a ''spectra_data_id''),
          (''spectrum_id'', a ''spectrum_id''),
          (''id'', a ''id''),
          (''identifications'', PList items)]))"

subsection \<open>Generator expressions\<close>

text \<open>
  A generator expression \<^verbatim>\<open>(e(s) for s in v)\<close> is an object with state: the items of
  \<open>v\<close> it has not reached yet. \<^verbatim>\<open>iter(v)\<close> runs when the expression is evaluated,
  \<open>e\<close> only when an item is asked for. \<open>EntityOf c\<close> is the element expression
  \<^verbatim>\<open>self.c(**(s or {}))\<close>, \<open>ResultOf\<close> is
  \<^verbatim>\<open>self._spectrum_identification_result(**(s or {}))\<close>.
\<close>

datatype thunk = EntityOf string | ResultOf

datatype stream = Stream thunk "pyval list"

fun pending :: "stream \<Rightarrow> pyval list" where
  "pending (Stream th ss) = ss"

fun produce :: "ctor \<Rightarrow> thunk \<Rightarrow> pyval \<Rightarrow> error + pyval" where
  "produce k (EntityOf c) s = build k c s"
| "produce k ResultOf s = call_kw (spectrum_identification_result k) s"

definition generator :: "thunk \<Rightarrow> pyval \<Rightarrow> error + stream" where
  "generator th v = try_with (iter_items v) (\<lambda>ss. Inr (Stream th ss))"

text \<open>
  \<^verbatim>\<open>next(g)\<close>: nothing when the generator is exhausted, else the value of the element
  expression at the next item; a generator whose expression raises is finished.
\<close>

fun stream_next :: "ctor \<Rightarrow> stream \<Rightarrow> (error + pyval) option \<times> stream" where
  "stream_next k (Stream th []) = (None, Stream th [])"
| "stream_next k (Stream th (s # ss)) =
     (case produce k th s of
        Inl e \<Rightarrow> (Some (Inl e), Stream th [])
      | Inr v \<Rightarrow> (Some (Inr v), Stream th ss))"

text \<open>\<^verbatim>\<open>list(g)\<close>: everything the generator still yields.\<close>

fun stream_list :: "ctor \<Rightarrow> stream \<Rightarrow> error + pyval list" where
  "stream_list k (Stream th ss) = comprehension (produce k th) ss"

text \<open>
  Modelled from the spec: the \<^verbatim>\<open>write\<close> of a collection that holds generators
  (\<^verbatim>\<open>SequenceCollection\<close>, \<^verbatim>\<open>SpectrumIdentificationList\<close> in \<^verbatim>\<open>components.py\<close>).
  It opens the collection's element, takes each sequence once, in the order given,
  writing every entity as the sequence yields it, and closes the element. An error
  aborts the write where it is: what has been written stays, and the element is closed
  on the way out.
\<close>

text \<open>Modelled from the spec: one sequence is taken, item by item, and each entity written.\<close>

function write_each :: "ctor \<Rightarrow> stream \<Rightarrow> serializer \<Rightarrow> result \<times> serializer \<times> stream" where
  "write_each k (Stream th []) w = (Ok, w, Stream th [])"
| "write_each k (Stream th (s # ss)) w =
     (case produce k th s of
        Inl e \<Rightarrow> (Raised e, w, Stream th [])
      | Inr v \<Rightarrow> (case serializer_write v w of
                    Inl e \<Rightarrow> (Raised e, w, Stream th ss)
                  | Inr w1 \<Rightarrow> write_each k (Stream th ss) w1))"
  by pat_completeness auto
termination
  by (relation "measure (\<lambda>(k, g, w). length (pending g))") auto

text \<open>Modelled from the spec: the sequences are taken one after the other.\<close>

fun write_all :: "ctor \<Rightarrow> stream list \<Rightarrow> serializer \<Rightarrow> result \<times> serializer \<times> stream list" where
  "write_all k [] w = (Ok, w, [])"
| "write_all k (g # gs) w =
     (case write_each k g w of
        (Ok, w1, g1) \<Rightarrow> (case write_all k gs w1 of (r, w2, gs1) \<Rightarrow> (r, w2, g1 # gs1))
      | (Raised e, w1, g1) \<Rightarrow> (Raised e, w1, g1 # gs))"

text \<open>
  Modelled from the spec: the element is opened, the sequences written, and the element
  closed on every path out of the write (guaranteed release around each open/close
  pair, section 9); an error raised while writing is raised again after the close.
\<close>

definition collection_write ::
  "ctor \<Rightarrow> handle \<Rightarrow> stream list \<Rightarrow> serializer \<Rightarrow> result \<times> serializer \<times> stream list" where
  "collection_write k h gs w =
     (case handle_enter h w of
        Inl e \<Rightarrow> (Raised e, w, gs)
      | Inr w1 \<Rightarrow>
         (case write_all k gs w1 of
            (r, w2, gs1) \<Rightarrow>
              (case handle_exit h w2 of
                 Inl e \<Rightarrow> (Raised e, w2, gs1)
               | Inr w3 \<Rightarrow> (r, w3, gs1))))"

text \<open>
  Modelled from the spec: \<^verbatim>\<open>self.c(...generators...).write(self.writer)\<close>, on the
  session's writer as it is.
\<close>

definition stream_collection :: "ctor \<Rightarrow> string \<Rightarrow> attributes \<Rightarrow> stream list \<Rightarrow> action" where
  "stream_collection k n attrs gs s =
     on_value (element_helper (writer s) n attrs) (\<lambda>h s1.
       case writer s1 of
         None \<Rightarrow> (Raised AttributeError, s1)
       | Some w \<Rightarrow> (case collection_write k h gs w of (r, w1, gs1) \<Rightarrow> (r, s1\<lparr>writer := Some w1\<rparr>))) s"

text \<open>
  \<^verbatim>\<open>
  def sequence_collection(self, db_sequences=tuple(), peptides=tuple(), peptide_evidence=tuple()):
      db_sequences = (self.DBSequence(**(s or {})) for s in ensure_iterable(db_sequences))
      peptides = (self.Peptide(**(s or {})) for s in ensure_iterable(peptides))
      peptide_evidence = (self.PeptideEvidence(**(s or {})) for s in ensure_iterable(peptide_evidence))

      self.SequenceCollection(db_sequences, peptides, peptide_evidence).write(self.writer)
  \<close>
  \<open>sequence_collection_streams\<close> is the first three statements: the three generator
  objects, in the order in which they are handed to \<^verbatim>\<open>SequenceCollection\<close>.
\<close>

definition sequence_collection_streams :: "pyval \<Rightarrow> pyval \<Rightarrow> pyval \<Rightarrow> error + stream list" where
  "sequence_collection_streams db_sequences peptides peptide_evidence =
     try_with (generator (EntityOf ''DBSequence'') (ensure_iterable db_sequences)) (\<lambda>g1.
     try_with (generator (EntityOf ''Peptide'') (ensure_iterable peptides)) (\<lambda>g2.
     try_with (generator (EntityOf ''PeptideEvidence'') (ensure_iterable peptide_evidence)) (\<lambda>g3.
     Inr [g1, g2, g3])))"

definition sequence_collection :: "ctor \<Rightarrow> pyval \<Rightarrow> pyval \<Rightarrow> pyval \<Rightarrow> action" where
  "sequence_collection k db_sequences peptides peptide_evidence =
     on_value (sequence_collection_streams db_sequences peptides peptide_evidence)
       (stream_collection k ''SequenceCollection'' [])"

text \<open>
  \<^verbatim>\<open>
  def spectrum_identification_list(self, id, identification_results=_t):
      converting = (self._spectrum_identification_result(**(s or {})) for s in identification_results)
      self.SpectrumIdentificationList(id=id, identification_results=converting).write(self.writer)
  \<close>
\<close>

definition converting :: "pyval \<Rightarrow> error + stream" where
  "converting identification_results = generator ResultOf identification_results"

definition spectrum_identification_list :: "ctor \<Rightarrow> pyval \<Rightarrow> pyval \<Rightarrow> action" where
  "spectrum_identification_list k ident identification_results =
     on_value (converting identification_results)
       (\<lambda>g. stream_collection k ''SpectrumIdentificationList'' [(''id'', ident)] [g])"

section \<open>The normalisation in the spec's words\<close>

text \<open>
  The spec describes argument normalisation by its result: a lone mapping or a string
  (like any object that cannot be iterated) stands for the one-element sequence holding
  it, and any other iterable for its own items. This definition follows those words; it
  is compared with \<open>ensure_iterable\<close> below.
\<close>

fun spec_normalized :: "pyval \<Rightarrow> pyval list" where
  "spec_normalized (PList xs) = xs"
| "spec_normalized (PTuple xs) = xs"
| "spec_normalized (PGen xs) = xs"
| "spec_normalized v = [v]"

section \<open>Outcomes and sample sessions\<close>

text \<open>An operation failed; it failed with an error other than the dedicated one.\<close>

definition failed :: "result \<times> session \<Rightarrow> bool" where
  "failed r = (fst r \<noteq> Ok)"

definition raw_failure :: "result \<times> session \<Rightarrow> bool" where
  "raw_failure r = (fst r \<noteq> Ok \<and> fst r \<noteq> Raised NotReady)"

text \<open>A session just constructed, the same session entered, and then left.\<close>

definition fresh_session :: session where
  "fresh_session = MzIdentMLWriter_init []"

definition open_session :: session where
  "open_session = snd (MzIdentMLWriter_enter fresh_session)"

definition left_session :: session where
  "left_session = snd (MzIdentMLWriter_exit None open_session)"

text \<open>The entered session with a section opened in it and not closed.\<close>

definition nested_session :: session where
  "nested_session = snd (DocumentSection_enter ''Inputs'' open_session)"

section \<open>Operations outside an entered session\<close>

subsection \<open>Errors that argument handling can raise\<close>

lemma on_writer_unset: "writer s = None \<Longrightarrow> on_writer f s = (Raised AttributeError, s)"
  by (simp add: on_writer_def)

lemma write_unset: "writer s = None \<Longrightarrow> XMLWriterMixin_write v s = (Raised NotReady, s)"
  by (simp add: XMLWriterMixin_write_def not_ready_guard_def on_writer_def)

lemma element_of_unset: "element_of None n kw = Inl AttributeError"
  by (cases n) (simp_all add: element_helper_def)

lemma element_unset: "writer s = None \<Longrightarrow> element n kw s = (Raised NotReady, s)"
  by (simp add: element_def not_ready_guard_def on_value_def element_of_unset)

lemma try_with_quiet:
  "r \<noteq> Inl NotReady \<Longrightarrow> (\<And>a. f a \<noteq> Inl NotReady) \<Longrightarrow> try_with r f \<noteq> Inl NotReady"
  by (cases r) (simp_all add: try_with_def)

lemma splat_quiet: "splat v \<noteq> Inl NotReady"
  by (cases v) simp_all

lemma iter_items_quiet: "iter_items v \<noteq> Inl NotReady"
  by (cases v) simp_all

lemma call_kw_quiet: "(\<And>kw. f kw \<noteq> Inl NotReady) \<Longrightarrow> call_kw f s \<noteq> Inl NotReady"
  by (simp add: call_kw_def try_with_quiet splat_quiet)

lemma comprehension_quiet:
  "(\<And>s. f s \<noteq> Inl NotReady) \<Longrightarrow> comprehension f ss \<noteq> Inl NotReady"
  by (induction ss) (auto split: sum.splits)

lemma for_each_in_quiet: "(\<And>s. f s \<noteq> Inl NotReady) \<Longrightarrow> for_each_in f v \<noteq> Inl NotReady"
  by (simp add: for_each_in_def try_with_quiet iter_items_quiet comprehension_quiet)

lemma build_quiet: "(\<And>c a kw. k c a kw \<noteq> Inl NotReady) \<Longrightarrow> build k c s \<noteq> Inl NotReady"
  by (simp add: build_def call_kw_quiet)

lemma entities_quiet: "(\<And>c a kw. k c a kw \<noteq> Inl NotReady) \<Longrightarrow> entities k c v \<noteq> Inl NotReady"
  by (simp add: entities_def for_each_in_quiet build_quiet)

lemma generator_quiet: "generator th v \<noteq> Inl NotReady"
  by (simp add: generator_def try_with_quiet iter_items_quiet)

lemma tolerance_quiet: "(\<And>c a kw. k c a kw \<noteq> Inl NotReady) \<Longrightarrow> tolerance k c v \<noteq> Inl NotReady"
  by (simp add: tolerance_def try_with_quiet iter_items_quiet)

lemma protocol_arguments_quiet:
  "(\<And>c a kw. k c a kw \<noteq> Inl NotReady) \<Longrightarrow>
   protocol_arguments k a1 a2 a3 a4 a5 a6 a7 a8 a9 \<noteq> Inl NotReady"
  unfolding protocol_arguments_def
  by (intro try_with_quiet entities_quiet tolerance_quiet) simp_all

lemma streams_quiet: "sequence_collection_streams a b c \<noteq> Inl NotReady"
  unfolding sequence_collection_streams_def
  by (intro try_with_quiet generator_quiet) simp_all

lemma on_value_raw:
  "r \<noteq> Inl NotReady \<Longrightarrow> (\<And>a. raw_failure (f a s)) \<Longrightarrow> raw_failure (on_value r f s)"
  by (cases r) (simp_all add: on_value_def raw_failure_def)

lemma and_then_raw: "raw_failure (m s) \<Longrightarrow> raw_failure (and_then m f s)"
  by (auto simp: and_then_def raw_failure_def split: prod.splits result.splits)

lemma component_write_raw: "writer s = None \<Longrightarrow> raw_failure (component_write v s)"
  by (simp add: component_write_def on_writer_def raw_failure_def)

lemma write_new_raw:
  "writer s = None \<Longrightarrow> (\<And>c a kw. k c a kw \<noteq> Inl NotReady) \<Longrightarrow> raw_failure (write_new k c a kw s)"
  unfolding write_new_def by (intro on_value_raw component_write_raw) simp_all

lemma controlled_vocabularies_raw:
  "writer s = None \<Longrightarrow> (\<And>c a kw. k c a kw \<noteq> Inl NotReady) \<Longrightarrow>
   raw_failure (controlled_vocabularies k v s)"
  unfolding controlled_vocabularies_def Let_def
  by (intro on_value_raw write_new_raw iter_items_quiet) simp_all

lemma providence_raw:
  "writer s = None \<Longrightarrow> (\<And>c a kw. k c a kw \<noteq> Inl NotReady) \<Longrightarrow>
   raw_failure (providence k a b c s)"
  unfolding providence_def
  by (intro on_value_raw and_then_raw write_new_raw entities_quiet build_quiet) simp_all

lemma inputs_raw:
  "writer s = None \<Longrightarrow> (\<And>c a kw. k c a kw \<noteq> Inl NotReady) \<Longrightarrow>
   raw_failure (inputs k a b c s)"
  unfolding inputs_def
  by (intro on_value_raw and_then_raw write_new_raw entities_quiet build_quiet) simp_all

lemma protocol_raw:
  "writer s = None \<Longrightarrow> (\<And>c a kw. k c a kw \<noteq> Inl NotReady) \<Longrightarrow>
   raw_failure (spectrum_identification_protocol k a1 a2 a3 a4 a5 a6 a7 a8 a9 s)"
  unfolding spectrum_identification_protocol_def
  by (intro on_value_raw write_new_raw protocol_arguments_quiet) simp_all

lemma stream_collection_raw: "writer s = None \<Longrightarrow> raw_failure (stream_collection k n at gs s)"
  by (simp add: stream_collection_def on_value_def element_helper_def raw_failure_def)

lemma sequence_collection_raw:
  "writer s = None \<Longrightarrow> raw_failure (sequence_collection k a b c s)"
  unfolding sequence_collection_def
  by (intro on_value_raw stream_collection_raw streams_quiet)

lemma list_raw:
  "writer s = None \<Longrightarrow> raw_failure (spectrum_identification_list k a b s)"
  unfolding spectrum_identification_list_def converting_def
  by (intro on_value_raw stream_collection_raw generator_quiet)


lemma on_value_failed: "(\<And>a. failed (f a s)) \<Longrightarrow> failed (on_value r f s)"
  by (cases r) (simp_all add: on_value_def failed_def)

lemma and_then_failed: "failed (m s) \<Longrightarrow> failed (and_then m f s)"
  by (auto simp: and_then_def failed_def split: prod.splits result.splits)

lemma guard_failed: "failed (m s) \<Longrightarrow> failed (not_ready_guard m s)"
  by (auto simp: not_ready_guard_def failed_def split: prod.splits result.splits error.splits)

lemma on_writer_write_failed:
  "writer s = Some w \<Longrightarrow> finished w \<Longrightarrow> failed (on_writer (serializer_write v) s)"
  by (simp add: on_writer_def serializer_write_def failed_def)

lemma on_writer_enter_failed:
  "writer s = Some w \<Longrightarrow> finished w \<Longrightarrow> failed (on_writer (handle_enter h) s)"
  by (simp add: on_writer_def handle_enter_def failed_def)

lemma write_failed:
  "writer s = Some w \<Longrightarrow> finished w \<Longrightarrow> failed (XMLWriterMixin_write v s)"
  unfolding XMLWriterMixin_write_def by (intro guard_failed on_writer_write_failed)

lemma element_failed:
  "writer s = Some w \<Longrightarrow> finished w \<Longrightarrow> failed (element n kw s)"
  unfolding element_def by (intro guard_failed on_value_failed on_writer_enter_failed)

lemma write_new_failed:
  "writer s = Some w \<Longrightarrow> finished w \<Longrightarrow> failed (write_new k c a kw s)"
  unfolding write_new_def component_write_def by (intro on_value_failed on_writer_write_failed)

lemma controlled_vocabularies_failed:
  "writer s = Some w \<Longrightarrow> finished w \<Longrightarrow> failed (controlled_vocabularies k v s)"
  unfolding controlled_vocabularies_def Let_def
  by (intro on_value_failed write_new_failed[where w = w]) simp_all

lemma providence_failed:
  "writer s = Some w \<Longrightarrow> finished w \<Longrightarrow> failed (providence k a b c s)"
  unfolding providence_def
  by (intro on_value_failed and_then_failed write_new_failed)

lemma inputs_failed:
  "writer s = Some w \<Longrightarrow> finished w \<Longrightarrow> failed (inputs k a b c s)"
  unfolding inputs_def
  by (intro on_value_failed write_new_failed)

lemma protocol_failed:
  "writer s = Some w \<Longrightarrow> finished w \<Longrightarrow>
   failed (spectrum_identification_protocol k a1 a2 a3 a4 a5 a6 a7 a8 a9 s)"
  unfolding spectrum_identification_protocol_def
  by (intro on_value_failed write_new_failed)

lemma stream_collection_failed:
  "writer s = Some w \<Longrightarrow> finished w \<Longrightarrow> failed (stream_collection k n at gs s)"
  by (simp add: stream_collection_def on_value_def element_helper_def collection_write_def
      handle_enter_def failed_def)

lemma sequence_collection_failed:
  "writer s = Some w \<Longrightarrow> finished w \<Longrightarrow> failed (sequence_collection k a b c s)"
  unfolding sequence_collection_def
  by (intro on_value_failed stream_collection_failed)

lemma list_failed:
  "writer s = Some w \<Longrightarrow> finished w \<Longrightarrow> failed (spectrum_identification_list k a b s)"
  unfolding spectrum_identification_list_def
  by (intro on_value_failed stream_collection_failed)

lemma exit_leaves_finished:
  "MzIdentMLWriter_exit exc s0 = (Ok, s) \<Longrightarrow> \<exists>w. writer s = Some w \<and> finished w"
  by (auto simp: MzIdentMLWriter_exit_def and_then_def on_writer_def xmlfile_exit_def
      split: option.splits sum.splits prod.splits result.splits if_splits)

text \<open>
  What the operations do outside an entered session. On a session whose writer is still
  unset, \<open>write\<close> and \<open>element\<close> fail with the dedicated not-ready error and change
  nothing. Each of the six section operations fails there too, but not with that error
  (as long as no constructor of the catalogue raises it itself): they hand the unset
  writer to the component outside the guard. After an exit that completed, none of the
  eight operations succeeds.
\<close>

theorem operations_outside_session:
  assumes quiet: "\<forall>c a kw. k c a kw \<noteq> Inl NotReady"
    and unset: "writer s = None"
    and left: "MzIdentMLWriter_exit exc s0 = (Ok, s')"
  shows "(XMLWriterMixin_write v s = (Raised NotReady, s)
          \<and> element n kw s = (Raised NotReady, s))
       \<and> list_all (\<lambda>r. fst r \<noteq> Ok \<and> fst r \<noteq> Raised NotReady)
            [controlled_vocabularies k vs s,
             providence k sw ow org s,
             inputs k sf sd sp s,
             sequence_collection k db pep pe s,
             spectrum_identification_protocol k st asid pid asp enz mods ft pt thr s,
             spectrum_identification_list k lid res s]
       \<and> list_all (\<lambda>r. fst r \<noteq> Ok)
            [XMLWriterMixin_write v s',
             element n kw s',
             controlled_vocabularies k vs s',
             providence k sw ow org s',
             inputs k sf sd sp s',
             sequence_collection k db pep pe s',
             spectrum_identification_protocol k st asid pid asp enz mods ft pt thr s',
             spectrum_identification_list k lid res s']"
proof -
  from quiet have q: "\<And>c a kw. k c a kw \<noteq> Inl NotReady" by simp
  from left obtain w where w: "writer s' = Some w" "finished w"
    using exit_leaves_finished by blast
  have before: "XMLWriterMixin_write v s = (Raised NotReady, s)
      \<and> element n kw s = (Raised NotReady, s)"
    using unset by (simp add: write_unset element_unset)
  have raw: "list_all raw_failure
            [controlled_vocabularies k vs s,
             providence k sw ow org s,
             inputs k sf sd sp s,
             sequence_collection k db pep pe s,
             spectrum_identification_protocol k st asid pid asp enz mods ft pt thr s,
             spectrum_identification_list k lid res s]"
    using unset q
    by (simp add: controlled_vocabularies_raw providence_raw inputs_raw sequence_collection_raw
        protocol_raw list_raw)
  have after: "list_all failed
            [XMLWriterMixin_write v s',
             element n kw s',
             controlled_vocabularies k vs s',
             providence k sw ow org s',
             inputs k sf sd sp s',
             sequence_collection k db pep pe s',
             spectrum_identification_protocol k st asid pid asp enz mods ft pt thr s',
             spectrum_identification_list k lid res s']"
    using w
    by (simp add: write_failed element_failed controlled_vocabularies_failed providence_failed
        inputs_failed sequence_collection_failed protocol_failed list_failed)
  from before raw after show ?thesis
    by (simp add: raw_failure_def failed_def)
qed

text \<open>
  The same on sample sessions: the session just constructed is unset, the entered
  session is left without error, and the operations behave as stated on both.
\<close>

theorem operations_outside_session_witness:
  "(\<forall>c a kw. demo_catalogue c a kw \<noteq> Inl NotReady)
   \<and> writer fresh_session = None
   \<and> MzIdentMLWriter_exit None open_session = (Ok, left_session)
   \<and> XMLWriterMixin_write (PStr ''text'') fresh_session = (Raised NotReady, fresh_session)
   \<and> element (PStr ''cvList'') [] fresh_session = (Raised NotReady, fresh_session)
   \<and> fst (inputs demo_catalogue (PTuple []) (PTuple []) (PTuple []) fresh_session) \<noteq> Raised NotReady
   \<and> fst (inputs demo_catalogue (PTuple []) (PTuple []) (PTuple []) left_session) \<noteq> Ok
   \<and> fst (XMLWriterMixin_write (PStr ''text'') left_session) \<noteq> Ok"
proof -
  have h1: "\<forall>c a kw. demo_catalogue c a kw \<noteq> Inl NotReady"
    by (simp add: demo_catalogue_def)
  have h2: "writer fresh_session = None"
    by (simp add: fresh_session_def MzIdentMLWriter_init_def)
  have h3: "MzIdentMLWriter_exit None open_session = (Ok, left_session)"
    by (simp add: left_session_def open_session_def fresh_session_def MzIdentMLWriter_init_def
        MzIdentMLWriter_enter_def MzIdentMLWriter_begin_def MzIdentMLWriter_exit_def
        new_serializer_def element_helper_def on_value_def and_then_def on_writer_def
        handle_enter_def handle_exit_def serializer_flush_def xmlfile_exit_def)
  from operations_outside_session [OF h1 h2 h3,
      of "PStr ''text''" "PStr ''cvList''" "[]" PNone PNone PNone PNone
         "PTuple []" "PTuple []" "PTuple []"]
  show ?thesis using h1 h2 h3 by simp
qed

text \<open>
  C1. Every write or section operation called before the session is entered should fail
  with the dedicated not-ready error, as \<open>write\<close> and \<open>element\<close> do. The section
  operations do not: \<open>controlled_vocabularies()\<close> on a session that was never entered
  raises the \<^verbatim>\<open>AttributeError\<close> of the component's write on the unset writer, which
  nothing translates.
\<close>

theorem controlled_vocabularies_before_entry:
  "controlled_vocabularies demo_catalogue PNone fresh_session = (Raised AttributeError, fresh_session)
   \<and> fst (controlled_vocabularies demo_catalogue PNone fresh_session) \<noteq> Raised NotReady
   \<and> XMLWriterMixin_write (PStr ''text'') fresh_session = (Raised NotReady, fresh_session)"
  by (simp add: controlled_vocabularies_def on_value_def write_new_def demo_catalogue_def
      component_write_def on_writer_def fresh_session_def MzIdentMLWriter_init_def
      XMLWriterMixin_write_def not_ready_guard_def)

section \<open>Leaving the session\<close>

lemma exit_steps_succeed:
  assumes "toplevel s = Some h" "writer s = Some w" "\<not> finished w" "scopes w = [fst h]"
  shows "MzIdentMLWriter_exit exc s =
      (Ok, s\<lparr>writer := Some (w\<lparr>scopes := [], events := events w @ [EndEl (fst h)],
                                 flushed := events w @ [EndEl (fst h)], finished := True\<rparr>),
             outfile_closed := True\<rparr>)"
  using assms
  by (simp add: MzIdentMLWriter_exit_def and_then_def on_writer_def handle_exit_def
      serializer_flush_def xmlfile_exit_def)

lemma exit_step_fails:
  "fst (MzIdentMLWriter_exit exc s) \<noteq> Ok \<Longrightarrow>
   outfile_closed (snd (MzIdentMLWriter_exit exc s)) = outfile_closed s"
  by (auto simp: MzIdentMLWriter_exit_def and_then_def on_writer_def
      split: option.splits sum.splits prod.splits result.splits)

text \<open>
  C2 (as amended). When the session is left with the root element as the only open
  element, then, whether or not an exception \<open>exc\<close> is leaving the body, the exit ends
  the root element, flushes everything written, ends the writer and closes the sink,
  in this order. The four steps are plain statements in sequence: an exit in which a
  step raises (on any session \<open>s1\<close>) leaves the sink as it was.
\<close>

theorem exit_releases_sink_when_steps_succeed:
  assumes "toplevel s = Some h" and "writer s = Some w" and "\<not> finished w"
    and "scopes w = [fst h]"
  shows "MzIdentMLWriter_exit exc s =
           (Ok, s\<lparr>writer := Some (w\<lparr>scopes := [], events := events w @ [EndEl (fst h)],
                                      flushed := events w @ [EndEl (fst h)], finished := True\<rparr>),
                  outfile_closed := True\<rparr>)
       \<and> (fst (MzIdentMLWriter_exit exc s1) \<noteq> Ok \<longrightarrow>
            outfile_closed (snd (MzIdentMLWriter_exit exc s1)) = outfile_closed s1)"
  using exit_steps_succeed [OF assms] exit_step_fails by blast

lemma open_session_eq:
  "open_session =
     \<lparr>vocabularies = [],
      writer = Some \<lparr>scopes = [''MzIdentML''], events = [StartEl ''MzIdentML'' []],
                     flushed = [], finished = False\<rparr>,
      toplevel = Some (''MzIdentML'', []), outfile_closed = False\<rparr>"
  by (simp add: open_session_def fresh_session_def MzIdentMLWriter_init_def
      MzIdentMLWriter_enter_def MzIdentMLWriter_begin_def new_serializer_def
      element_helper_def on_value_def on_writer_def handle_enter_def)

lemma nested_session_eq:
  "nested_session =
     \<lparr>vocabularies = [],
      writer = Some \<lparr>scopes = [''Inputs'', ''MzIdentML''],
                     events = [StartEl ''MzIdentML'' [], StartEl ''Inputs'' []],
                     flushed = [], finished = False\<rparr>,
      toplevel = Some (''MzIdentML'', []), outfile_closed = False\<rparr>"
  by (simp add: nested_session_def open_session_eq DocumentSection_enter_def
      element_helper_def on_value_def on_writer_def handle_enter_def)

text \<open>
  C2, witness: the entered session is left while a \<^verbatim>\<open>TypeError\<close> leaves the body; the
  sink is closed. Left with a section still open, the exit raises and the sink stays
  open.
\<close>

theorem exit_releases_sink_when_steps_succeed_witness:
  "toplevel open_session = Some (''MzIdentML'', [])
   \<and> writer open_session = Some \<lparr>scopes = [''MzIdentML''], events = [StartEl ''MzIdentML'' []],
                                  flushed = [], finished = False\<rparr>
   \<and> fst (MzIdentMLWriter_exit (Some TypeError) open_session) = Ok
   \<and> outfile_closed (snd (MzIdentMLWriter_exit (Some TypeError) open_session))
   \<and> fst (MzIdentMLWriter_exit (Some TypeError) nested_session) \<noteq> Ok
   \<and> outfile_closed (snd (MzIdentMLWriter_exit (Some TypeError) nested_session))
       = outfile_closed nested_session"
proof -
  let ?w = "\<lparr>scopes = [''MzIdentML''], events = [StartEl ''MzIdentML'' []],
             flushed = [], finished = False\<rparr>"
  have h1: "toplevel open_session = Some (''MzIdentML'', [])"
    by (simp add: open_session_eq)
  have h2: "writer open_session = Some ?w"
    by (simp add: open_session_eq)
  have h3: "\<not> finished ?w" by simp
  have h4: "scopes ?w = [fst (''MzIdentML'', [])]" by simp
  have h5: "fst (MzIdentMLWriter_exit (Some TypeError) nested_session) \<noteq> Ok"
    by (simp add: nested_session_eq MzIdentMLWriter_exit_def and_then_def on_writer_def
        handle_exit_def)
  from exit_releases_sink_when_steps_succeed [OF h1 h2 h3 h4, of "Some TypeError" nested_session]
  show ?thesis using h1 h2 h5 by simp
qed

text \<open>
  C2, counterexample: the session is left, on an exception from the body, with a
  section element still open. Closing the root element raises, and the remaining steps
  are skipped: the sink is not closed.
\<close>

theorem exit_skips_sink_counterexample:
  "MzIdentMLWriter_exit (Some ValidationError) nested_session = (Raised ScopeViolation, nested_session)
   \<and> \<not> outfile_closed (snd (MzIdentMLWriter_exit (Some ValidationError) nested_session))"
  by (simp add: nested_session_eq MzIdentMLWriter_exit_def and_then_def on_writer_def
      handle_exit_def)

section \<open>Writing inside an entered session\<close>

lemma component_write_ok:
  "writer s = Some w \<Longrightarrow> \<not> finished w \<Longrightarrow>
   component_write v s = (Ok, s\<lparr>writer := Some (w\<lparr>events := events w @ [Node v]\<rparr>)\<rparr>)"
  by (simp add: component_write_def on_writer_def serializer_write_def)

lemma write_new_ok:
  "k c a kw = Inr v \<Longrightarrow> writer s = Some w \<Longrightarrow> \<not> finished w \<Longrightarrow>
   write_new k c a kw s = (Ok, s\<lparr>writer := Some (w\<lparr>events := events w @ [Node v]\<rparr>)\<rparr>)"
  by (simp add: write_new_def on_value_def component_write_ok)

lemma iter_items_ensure_iterable: "iter_items (ensure_iterable v) = Inr (spec_normalized v)"
  by (cases v) (simp_all add: ensure_iterable_def)

lemma ensure_iterable_idem: "ensure_iterable (ensure_iterable v) = ensure_iterable v"
  by (cases v) (simp_all add: ensure_iterable_def)

lemma comprehension_sound:
  "comprehension f ss = Inr es \<Longrightarrow> list_all2 (\<lambda>s e. f s = Inr e) ss es"
  by (induction ss arbitrary: es) (auto split: sum.splits)

lemma comprehension_complete:
  "list_all2 (\<lambda>s e. f s = Inr e) ss es \<Longrightarrow> comprehension f ss = Inr es"
  by (induction rule: list_all2_induct) simp_all

lemma comprehension_all2:
  "comprehension f ss = Inr es \<longleftrightarrow> list_all2 (\<lambda>s e. f s = Inr e) ss es"
  using comprehension_sound comprehension_complete by blast

lemma entities_eq: "entities k c v = comprehension (build k c) (spec_normalized v)"
  by (simp add: entities_def for_each_in_def try_with_def iter_items_ensure_iterable)

lemma entities_all2:
  "entities k c v = Inr es \<longleftrightarrow> list_all2 (\<lambda>s e. build k c s = Inr e) (spec_normalized v) es"
  by (simp add: entities_eq comprehension_all2)

lemma build_falsy: "\<not> truthy s \<Longrightarrow> build k c s = k c [] []"
  by (simp add: build_def call_kw_def or_empty_def try_with_def)

lemma build_mapping: "build k c (PDict kw) = k c [] kw"
  by (cases kw) (simp_all add: build_def call_kw_def or_empty_def try_with_def)

lemma controlled_vocabularies_ok:
  assumes "iter_items (if v = PNone then PList [] else v) = Inr xs"
    and "k ''CVList'' [PList (vocabularies s @ xs)] [] = Inr c"
    and "writer s = Some w" and "\<not> finished w"
  shows "controlled_vocabularies k v s =
     (Ok, s\<lparr>vocabularies := vocabularies s @ xs,
            writer := Some (w\<lparr>events := events w @ [Node c]\<rparr>)\<rparr>)"
  using assms
  by (simp add: controlled_vocabularies_def on_value_def Let_def write_new_ok [where w = w and v = c])

lemma controlled_vocabularies_grows:
  "\<exists>zs. vocabularies (snd (controlled_vocabularies k v s)) = vocabularies s @ zs"
  by (auto simp: controlled_vocabularies_def on_value_def Let_def write_new_def
      component_write_def on_writer_def split: sum.splits option.splits)

text \<open>
  C3. Each call of \<open>controlled_vocabularies\<close> appends the items of its argument to the
  session's vocabulary list (\<^verbatim>\<open>None\<close> counts as the empty list) and writes the
  \<^verbatim>\<open>CVList\<close> built from the whole list so far: after a call with \<open>xs\<close> and one with
  \<open>ys\<close> the second \<^verbatim>\<open>CVList\<close> is built from both, a further call with the empty list
  or with \<^verbatim>\<open>None\<close> writes that same \<^verbatim>\<open>CVList\<close> once more, and no call, successful or
  not, ever shortens the list.
\<close>

theorem controlled_vocabularies_accumulate:
  assumes "writer s = Some w" and "\<not> finished w"
    and "k ''CVList'' [PList (vocabularies s @ xs)] [] = Inr c1"
    and "k ''CVList'' [PList (vocabularies s @ xs @ ys)] [] = Inr c2"
  shows "controlled_vocabularies k (PList xs) s =
           (Ok, s\<lparr>vocabularies := vocabularies s @ xs,
                  writer := Some (w\<lparr>events := events w @ [Node c1]\<rparr>)\<rparr>)
       \<and> controlled_vocabularies k (PList ys)
             (s\<lparr>vocabularies := vocabularies s @ xs,
                writer := Some (w\<lparr>events := events w @ [Node c1]\<rparr>)\<rparr>) =
           (Ok, s\<lparr>vocabularies := vocabularies s @ xs @ ys,
                  writer := Some (w\<lparr>events := events w @ [Node c1, Node c2]\<rparr>)\<rparr>)
       \<and> controlled_vocabularies k (PList [])
             (s\<lparr>vocabularies := vocabularies s @ xs @ ys,
                writer := Some (w\<lparr>events := events w @ [Node c1, Node c2]\<rparr>)\<rparr>) =
           (Ok, s\<lparr>vocabularies := vocabularies s @ xs @ ys,
                  writer := Some (w\<lparr>events := events w @ [Node c1, Node c2, Node c2]\<rparr>)\<rparr>)
       \<and> controlled_vocabularies k PNone
             (s\<lparr>vocabularies := vocabularies s @ xs @ ys,
                writer := Some (w\<lparr>events := events w @ [Node c1, Node c2]\<rparr>)\<rparr>) =
           (Ok, s\<lparr>vocabularies := vocabularies s @ xs @ ys,
                  writer := Some (w\<lparr>events := events w @ [Node c1, Node c2, Node c2]\<rparr>)\<rparr>)
       \<and> (\<exists>zs. vocabularies (snd (controlled_vocabularies k v s0)) = vocabularies s0 @ zs)"
proof -
  let ?s1 = "s\<lparr>vocabularies := vocabularies s @ xs,
                writer := Some (w\<lparr>events := events w @ [Node c1]\<rparr>)\<rparr>"
  let ?s2 = "s\<lparr>vocabularies := vocabularies s @ xs @ ys,
                writer := Some (w\<lparr>events := events w @ [Node c1, Node c2]\<rparr>)\<rparr>"
  have a: "controlled_vocabularies k (PList xs) s = (Ok, ?s1)"
    using assms by (simp add: controlled_vocabularies_ok [where xs = xs and w = w and c = c1])
  have b: "controlled_vocabularies k (PList ys) ?s1 = (Ok, ?s2)"
    using assms
    by (simp add: controlled_vocabularies_ok
        [where xs = ys and w = "w\<lparr>events := events w @ [Node c1]\<rparr>" and c = c2])
  have c: "controlled_vocabularies k (PList []) ?s2 =
      (Ok, s\<lparr>vocabularies := vocabularies s @ xs @ ys,
             writer := Some (w\<lparr>events := events w @ [Node c1, Node c2, Node c2]\<rparr>)\<rparr>)"
    using assms
    by (simp add: controlled_vocabularies_ok
        [where xs = "[]" and w = "w\<lparr>events := events w @ [Node c1, Node c2]\<rparr>" and c = c2])
  have d: "controlled_vocabularies k PNone ?s2 =
      (Ok, s\<lparr>vocabularies := vocabularies s @ xs @ ys,
             writer := Some (w\<lparr>events := events w @ [Node c1, Node c2, Node c2]\<rparr>)\<rparr>)"
    using assms
    by (simp add: controlled_vocabularies_ok
        [where xs = "[]" and w = "w\<lparr>events := events w @ [Node c1, Node c2]\<rparr>" and c = c2])
  from a b c d controlled_vocabularies_grows show ?thesis by blast
qed

lemma demo_catalogue_quiet: "demo_catalogue c a kw \<noteq> Inl e"
  by (simp add: demo_catalogue_def)

text \<open>C3, witness: two vocabularies, one after the other, in the entered session.\<close>

theorem controlled_vocabularies_accumulate_witness:
  "controlled_vocabularies demo_catalogue (PList [PStr ''PSI-MS'']) open_session
     = (Ok, open_session\<lparr>vocabularies := [PStr ''PSI-MS''],
          writer := Some \<lparr>scopes = [''MzIdentML''],
            events = [StartEl ''MzIdentML'' [],
              Node (PObj ''CVList'' [(''args'', PList [PList [PStr ''PSI-MS'']]), (''id'', PInt 1)])],
            flushed = [], finished = False\<rparr>\<rparr>)
   \<and> (\<exists>s2. controlled_vocabularies demo_catalogue PNone s2
         = (Ok, open_session\<lparr>vocabularies := [PStr ''PSI-MS'', PStr ''UO''],
          writer := Some \<lparr>scopes = [''MzIdentML''],
            events = [StartEl ''MzIdentML'' [],
              Node (PObj ''CVList'' [(''args'', PList [PList [PStr ''PSI-MS'']]), (''id'', PInt 1)]),
              Node (PObj ''CVList'' [(''args'', PList [PList [PStr ''PSI-MS'', PStr ''UO'']]), (''id'', PInt 1)]),
              Node (PObj ''CVList'' [(''args'', PList [PList [PStr ''PSI-MS'', PStr ''UO'']]), (''id'', PInt 1)])],
            flushed = [], finished = False\<rparr>\<rparr>))"
proof -
  let ?w = "\<lparr>scopes = [''MzIdentML''], events = [StartEl ''MzIdentML'' []],
             flushed = [], finished = False\<rparr>"
  let ?c1 = "PObj ''CVList'' [(''args'', PList [PList [PStr ''PSI-MS'']]), (''id'', PInt 1)]"
  let ?c2 = "PObj ''CVList'' [(''args'', PList [PList [PStr ''PSI-MS'', PStr ''UO'']]), (''id'', PInt 1)]"
  have h1: "writer open_session = Some ?w" by (simp add: open_session_eq)
  have h2: "\<not> finished ?w" by simp
  have h3: "demo_catalogue ''CVList'' [PList (vocabularies open_session @ [PStr ''PSI-MS''])] [] = Inr ?c1"
    by (simp add: demo_catalogue_def open_session_eq)
  have h4: "demo_catalogue ''CVList''
      [PList (vocabularies open_session @ [PStr ''PSI-MS''] @ [PStr ''UO''])] [] = Inr ?c2"
    by (simp add: demo_catalogue_def open_session_eq)
  from controlled_vocabularies_accumulate
    [where k = demo_catalogue and s = open_session and xs = "[PStr ''PSI-MS'']"
       and ys = "[PStr ''UO'']" and v = PNone and ?s0.0 = open_session, OF h1 h2 h3 h4]
  show ?thesis by (auto simp: open_session_eq)
qed

text \<open>
  C4. \<open>providence\<close> with owner and organization omitted (\<^verbatim>\<open>None\<close>) builds a
  \<^verbatim>\<open>Person\<close> and an \<^verbatim>\<open>Organization\<close> with no arguments and writes, in this order,
  the \<^verbatim>\<open>AnalysisSoftwareList\<close> collection, a \<^verbatim>\<open>Provider\<close> whose \<open>contact\<close> is the
  \<open>id\<close> attribute of that person, and an \<^verbatim>\<open>AuditCollection\<close> holding that same
  person object and the organization.
\<close>

theorem providence_default_owner:
  assumes "writer s = Some w" and "\<not> finished w"
    and "entities k ''AnalysisSoftware'' software = Inr sw"
    and "k ''Person'' [] [] = Inr person"
    and "k ''Organization'' [] [] = Inr organization"
    and "k ''GenericCollection'' [PStr ''AnalysisSoftwareList'', PList sw] [] = Inr software_list"
    and "get_attr person ''id'' = Inr person_id"
    and "k ''Provider'' [] [(''contact'', person_id)] = Inr provider"
    and "k ''AuditCollection'' [PList [person], PList [organization]] [] = Inr audit"
  shows "providence k software PNone PNone s =
           (Ok, s\<lparr>writer := Some (w\<lparr>events := events w @
                     [Node software_list, Node provider, Node audit]\<rparr>)\<rparr>)"
proof -
  let ?w1 = "w\<lparr>events := events w @ [Node software_list]\<rparr>"
  let ?w2 = "?w1\<lparr>events := events ?w1 @ [Node provider]\<rparr>"
  have 1: "write_new k ''GenericCollection'' [PStr ''AnalysisSoftwareList'', PList sw] [] s
      = (Ok, s\<lparr>writer := Some ?w1\<rparr>)"
    using assms by (simp add: write_new_ok)
  have 2: "write_new k ''Provider'' [] [(''contact'', person_id)] (s\<lparr>writer := Some ?w1\<rparr>)
      = (Ok, s\<lparr>writer := Some ?w2\<rparr>)"
    using assms by (simp add: write_new_ok [where w = ?w1])
  have 3: "write_new k ''AuditCollection'' [PList [person], PList [organization]] []
        (s\<lparr>writer := Some ?w2\<rparr>)
      = (Ok, s\<lparr>writer := Some (?w2\<lparr>events := events ?w2 @ [Node audit]\<rparr>)\<rparr>)"
    using assms by (simp add: write_new_ok [where w = ?w2])
  show ?thesis
    using assms(3,4,5,7) 1 2 3
    by (simp add: providence_def on_value_def and_then_def build_falsy)
qed

text \<open>C4, witness: \<open>providence()\<close> in the entered session, with the stand-in catalogue.\<close>

theorem providence_default_owner_witness:
  "providence demo_catalogue (PTuple []) PNone PNone open_session
     = (Ok, open_session\<lparr>writer := Some \<lparr>scopes = [''MzIdentML''],
          events = [StartEl ''MzIdentML'' [],
            Node (PObj ''GenericCollection''
                    [(''args'', PList [PStr ''AnalysisSoftwareList'', PList []]), (''id'', PInt 1)]),
            Node (PObj ''Provider'' [(''contact'', PInt 1), (''args'', PList []), (''id'', PInt 1)]),
            Node (PObj ''AuditCollection''
                    [(''args'', PList [PList [PObj ''Person'' [(''args'', PList []), (''id'', PInt 1)]],
                                       PList [PObj ''Organization'' [(''args'', PList []), (''id'', PInt 1)]]]),
                     (''id'', PInt 1)])],
          flushed = [], finished = False\<rparr>\<rparr>)"
proof -
  let ?w = "\<lparr>scopes = [''MzIdentML''], events = [StartEl ''MzIdentML'' []],
             flushed = [], finished = False\<rparr>"
  let ?p = "PObj ''Person'' [(''args'', PList []), (''id'', PInt 1)]"
  let ?o = "PObj ''Organization'' [(''args'', PList []), (''id'', PInt 1)]"
  have h1: "writer open_session = Some ?w" by (simp add: open_session_eq)
  have h2: "\<not> finished ?w" by simp
  have h3: "entities demo_catalogue ''AnalysisSoftware'' (PTuple []) = Inr []"
    by (simp add: entities_eq)
  have h4: "demo_catalogue ''Person'' [] [] = Inr ?p" by (simp add: demo_catalogue_def)
  have h5: "demo_catalogue ''Organization'' [] [] = Inr ?o" by (simp add: demo_catalogue_def)
  have h6: "demo_catalogue ''GenericCollection'' [PStr ''AnalysisSoftwareList'', PList []] []
      = Inr (PObj ''GenericCollection''
                    [(''args'', PList [PStr ''AnalysisSoftwareList'', PList []]), (''id'', PInt 1)])"
    by (simp add: demo_catalogue_def)
  have h7: "get_attr ?p ''id'' = Inr (PInt 1)" by simp
  have h8: "demo_catalogue ''Provider'' [] [(''contact'', PInt 1)]
      = Inr (PObj ''Provider'' [(''contact'', PInt 1), (''args'', PList []), (''id'', PInt 1)])"
    by (simp add: demo_catalogue_def)
  have h9: "demo_catalogue ''AuditCollection'' [PList [?p], PList [?o]] []
      = Inr (PObj ''AuditCollection'' [(''args'', PList [PList [?p], PList [?o]]), (''id'', PInt 1)])"
    by (simp add: demo_catalogue_def)
  from providence_default_owner [where k = demo_catalogue, OF h1 h2 h3 h4 h5 h6 h7 h8 h9]
  show ?thesis by (simp add: open_session_eq)
qed

section \<open>Argument normalisation\<close>

lemma ensure_iterable_cases:
  "ensure_iterable (PDict m) = PList [PDict m]"
  "ensure_iterable (PStr t) = PList [PStr t]"
  "is_Iterable v \<Longrightarrow> \<not> is_basestring v \<Longrightarrow> \<not> is_Mapping v \<Longrightarrow> ensure_iterable v = v"
  by (simp_all add: ensure_iterable_def)

lemma entities_ensure: "entities k c (ensure_iterable v) = entities k c v"
  by (simp add: entities_def ensure_iterable_idem)

lemma inputs_success:
  assumes "inputs k a b c s = (Ok, s')"
  shows "\<exists>sf sd sp node w.
           list_all2 (\<lambda>x e. build k ''SourceFile'' x = Inr e) (spec_normalized a) sf
         \<and> list_all2 (\<lambda>x e. build k ''SearchDatabase'' x = Inr e) (spec_normalized b) sd
         \<and> list_all2 (\<lambda>x e. build k ''SpectraData'' x = Inr e) (spec_normalized c) sp
         \<and> k ''Inputs'' [PList sf, PList sd, PList sp] [] = Inr node
         \<and> writer s = Some w
         \<and> s' = s\<lparr>writer := Some (w\<lparr>events := events w @ [Node node]\<rparr>)\<rparr>"
proof -
  from assms obtain sf where sf: "entities k ''SourceFile'' a = Inr sf"
    by (cases "entities k ''SourceFile'' a") (simp_all add: inputs_def on_value_def)
  from assms sf obtain sd where sd: "entities k ''SearchDatabase'' b = Inr sd"
    by (cases "entities k ''SearchDatabase'' b") (simp_all add: inputs_def on_value_def)
  from assms sf sd obtain sp where sp: "entities k ''SpectraData'' c = Inr sp"
    by (cases "entities k ''SpectraData'' c") (simp_all add: inputs_def on_value_def)
  from assms sf sd sp have wr: "write_new k ''Inputs'' [PList sf, PList sd, PList sp] [] s = (Ok, s')"
    by (simp add: inputs_def on_value_def)
  then obtain node where node: "k ''Inputs'' [PList sf, PList sd, PList sp] [] = Inr node"
    by (cases "k ''Inputs'' [PList sf, PList sd, PList sp] []") (simp_all add: write_new_def on_value_def)
  from wr node obtain w where w: "writer s = Some w"
    "s' = s\<lparr>writer := Some (w\<lparr>events := events w @ [Node node]\<rparr>)\<rparr>"
    by (auto simp: write_new_def on_value_def component_write_def on_writer_def serializer_write_def
        split: option.splits if_splits)
  from sf sd sp node w show ?thesis
    by (auto simp: entities_all2)
qed

lemma providence_success:
  assumes "providence k a ow org s = (Ok, s')"
  shows "\<exists>sw coll.
           list_all2 (\<lambda>x e. build k ''AnalysisSoftware'' x = Inr e) (spec_normalized a) sw
         \<and> k ''GenericCollection'' [PStr ''AnalysisSoftwareList'', PList sw] [] = Inr coll"
proof -
  from assms obtain sw where sw: "entities k ''AnalysisSoftware'' a = Inr sw"
    by (cases "entities k ''AnalysisSoftware'' a") (simp_all add: providence_def on_value_def)
  from assms sw obtain p where p: "build k ''Person'' ow = Inr p"
    by (cases "build k ''Person'' ow") (simp_all add: providence_def on_value_def)
  from assms sw p obtain g where g: "build k ''Organization'' org = Inr g"
    by (cases "build k ''Organization'' org") (simp_all add: providence_def on_value_def)
  from assms sw p g obtain coll where "k ''GenericCollection'' [PStr ''AnalysisSoftwareList'', PList sw] [] = Inr coll"
    by (cases "k ''GenericCollection'' [PStr ''AnalysisSoftwareList'', PList sw] []")
      (simp_all add: providence_def on_value_def and_then_def write_new_def)
  with sw show ?thesis by (auto simp: entities_all2)
qed

lemma protocol_arguments_success:
  assumes "protocol_arguments k st asid pid asp enz mods ft pt thr = Inr args"
  shows "\<exists>es ms ft1 pt1 th.
           args = [st, asid, pid, asp, PList es, PList ms, ft1, pt1, th]
         \<and> entities k ''Enzyme'' enz = Inr es
         \<and> entities k ''SearchModification'' mods = Inr ms
         \<and> tolerance k ''FragmentTolerance'' ft = Inr ft1
         \<and> tolerance k ''ParentTolerance'' pt = Inr pt1
         \<and> k ''Threshold'' [thr] [] = Inr th"
  using assms
  by (auto simp: protocol_arguments_def try_with_def split: sum.splits)

lemma protocol_arguments_ok:
  assumes "entities k ''Enzyme'' enz = Inr es"
    and "entities k ''SearchModification'' mods = Inr ms"
    and "tolerance k ''FragmentTolerance'' ft = Inr ft1"
    and "tolerance k ''ParentTolerance'' pt = Inr pt1"
    and "k ''Threshold'' [thr] [] = Inr th"
  shows "protocol_arguments k st asid pid asp enz mods ft pt thr
           = Inr [st, asid, pid, asp, PList es, PList ms, ft1, pt1, th]"
  using assms by (simp add: protocol_arguments_def try_with_def)

lemma tolerance_cases:
  "tolerance k c (PList xs) = k c xs []"
  "tolerance k c (PTuple xs) = k c xs []"
  "\<not> is_list_or_tuple v \<Longrightarrow> tolerance k c v = Inr v"
  by (simp_all add: tolerance_def try_with_def)

lemma inputs_ok:
  assumes "entities k ''SourceFile'' a = Inr sf"
    and "entities k ''SearchDatabase'' b = Inr sd"
    and "entities k ''SpectraData'' c = Inr sp"
    and "k ''Inputs'' [PList sf, PList sd, PList sp] [] = Inr node"
    and "writer s = Some w" and "\<not> finished w"
  shows "inputs k a b c s = (Ok, s\<lparr>writer := Some (w\<lparr>events := events w @ [Node node]\<rparr>)\<rparr>)"
  using assms by (simp add: inputs_def on_value_def write_new_ok)

text \<open>
  C5 (as amended). \<open>ensure_iterable\<close> turns a lone mapping or a string into the
  one-element list holding it and returns any other iterable as it is, so that the items
  iterated are those the spec names. \<open>providence\<close> applies it to \<open>software\<close>,
  \<open>inputs\<close> to its three arguments and \<open>spectrum_identification_protocol\<close> to
  \<open>enzymes\<close> and \<open>modification_params\<close>, and a call that succeeds has built exactly
  one entity per item, in order; \<open>inputs\<close> writes one \<^verbatim>\<open>Inputs\<close> collection made of
  the three lists in the order source files, search databases, spectra data, and does so
  whenever the entities can be built and the writer is usable.
  \<open>additional_search_params\<close> is handed to the protocol as it was given.
\<close>

theorem normalization_one_entity_per_item:
  "ensure_iterable (PDict m) = PList [PDict m]
   \<and> ensure_iterable (PStr t) = PList [PStr t]
   \<and> (is_Iterable v \<and> \<not> is_basestring v \<and> \<not> is_Mapping v \<longrightarrow> ensure_iterable v = v)
   \<and> iter_items (ensure_iterable v) = Inr (spec_normalized v)
   \<and> (providence k sw ow org s = (Ok, s1) \<longrightarrow>
        (\<exists>es coll.
            list_all2 (\<lambda>x e. build k ''AnalysisSoftware'' x = Inr e) (spec_normalized sw) es
          \<and> k ''GenericCollection'' [PStr ''AnalysisSoftwareList'', PList es] [] = Inr coll))
   \<and> (inputs k a b c s = (Ok, s2) \<longrightarrow>
        (\<exists>sf sd sp node w.
            list_all2 (\<lambda>x e. build k ''SourceFile'' x = Inr e) (spec_normalized a) sf
          \<and> list_all2 (\<lambda>x e. build k ''SearchDatabase'' x = Inr e) (spec_normalized b) sd
          \<and> list_all2 (\<lambda>x e. build k ''SpectraData'' x = Inr e) (spec_normalized c) sp
          \<and> k ''Inputs'' [PList sf, PList sd, PList sp] [] = Inr node
          \<and> writer s = Some w
          \<and> s2 = s\<lparr>writer := Some (w\<lparr>events := events w @ [Node node]\<rparr>)\<rparr>))
   \<and> (list_all2 (\<lambda>x e. build k ''SourceFile'' x = Inr e) (spec_normalized a) sf
        \<and> list_all2 (\<lambda>x e. build k ''SearchDatabase'' x = Inr e) (spec_normalized b) sd
        \<and> list_all2 (\<lambda>x e. build k ''SpectraData'' x = Inr e) (spec_normalized c) sp
        \<and> k ''Inputs'' [PList sf, PList sd, PList sp] [] = Inr node
        \<and> writer s = Some w \<and> \<not> finished w \<longrightarrow>
        inputs k a b c s = (Ok, s\<lparr>writer := Some (w\<lparr>events := events w @ [Node node]\<rparr>)\<rparr>))
   \<and> (protocol_arguments k st asid pid asp enz mods ft pt thr = Inr args \<longrightarrow>
        (\<exists>es ms ft1 pt1 th.
            args = [st, asid, pid, asp, PList es, PList ms, ft1, pt1, th]
          \<and> list_all2 (\<lambda>x e. build k ''Enzyme'' x = Inr e) (spec_normalized enz) es
          \<and> list_all2 (\<lambda>x e. build k ''SearchModification'' x = Inr e) (spec_normalized mods) ms))"
proof -
  have "protocol_arguments k st asid pid asp enz mods ft pt thr = Inr args \<longrightarrow>
        (\<exists>es ms ft1 pt1 th.
            args = [st, asid, pid, asp, PList es, PList ms, ft1, pt1, th]
          \<and> list_all2 (\<lambda>x e. build k ''Enzyme'' x = Inr e) (spec_normalized enz) es
          \<and> list_all2 (\<lambda>x e. build k ''SearchModification'' x = Inr e) (spec_normalized mods) ms)"
    using protocol_arguments_success [of k st asid pid asp enz mods ft pt thr args]
    by (auto simp: entities_all2)
  moreover have "list_all2 (\<lambda>x e. build k ''SourceFile'' x = Inr e) (spec_normalized a) sf
        \<and> list_all2 (\<lambda>x e. build k ''SearchDatabase'' x = Inr e) (spec_normalized b) sd
        \<and> list_all2 (\<lambda>x e. build k ''SpectraData'' x = Inr e) (spec_normalized c) sp
        \<and> k ''Inputs'' [PList sf, PList sd, PList sp] [] = Inr node
        \<and> writer s = Some w \<and> \<not> finished w \<longrightarrow>
        inputs k a b c s = (Ok, s\<lparr>writer := Some (w\<lparr>events := events w @ [Node node]\<rparr>)\<rparr>)"
    using inputs_ok [of k a sf b sd c sp node s w] by (simp add: entities_all2)
  ultimately show ?thesis
    using ensure_iterable_cases(1) [of m] ensure_iterable_cases(2) [of t]
      ensure_iterable_cases(3) [of v] iter_items_ensure_iterable [of v]
      providence_success [of k sw ow org s s1] inputs_success [of k a b c s s2]
    by blast
qed

text \<open>
  C5, witness: \<open>inputs\<close> with a lone mapping, an empty tuple and a list of two
  mappings, in the entered session: one, no and two entities.
\<close>

theorem normalization_one_entity_per_item_witness:
  "inputs demo_catalogue (PDict [(''location'', PStr ''a.mzML'')]) (PTuple [])
       (PList [PDict [(''id'', PInt 7)], PDict [(''id'', PInt 8)]]) open_session
     = (Ok, open_session\<lparr>writer := Some \<lparr>scopes = [''MzIdentML''],
          events = [StartEl ''MzIdentML'' [],
            Node (PObj ''Inputs''
              [(''args'', PList
                 [PList [PObj ''SourceFile''
                           [(''location'', PStr ''a.mzML''), (''args'', PList []), (''id'', PInt 1)]],
                  PList [],
                  PList [PObj ''SpectraData'' [(''id'', PInt 7), (''args'', PList []), (''id'', PInt 1)],
                         PObj ''SpectraData'' [(''id'', PInt 8), (''args'', PList []), (''id'', PInt 1)]]]),
               (''id'', PInt 1)])],
          flushed = [], finished = False\<rparr>\<rparr>)
   \<and> (\<exists>sf sd sp.
         list_all2 (\<lambda>x e. build demo_catalogue ''SourceFile'' x = Inr e)
           [PDict [(''location'', PStr ''a.mzML'')]] sf
       \<and> list_all2 (\<lambda>x e. build demo_catalogue ''SearchDatabase'' x = Inr e) [] sd
       \<and> list_all2 (\<lambda>x e. build demo_catalogue ''SpectraData'' x = Inr e)
           [PDict [(''id'', PInt 7)], PDict [(''id'', PInt 8)]] sp)"
proof -
  let ?a = "PDict [(''location'', PStr ''a.mzML'')]"
  let ?c = "PList [PDict [(''id'', PInt 7)], PDict [(''id'', PInt 8)]]"
  let ?s2 = "open_session\<lparr>writer := Some \<lparr>scopes = [''MzIdentML''],
          events = [StartEl ''MzIdentML'' [],
            Node (PObj ''Inputs''
              [(''args'', PList
                 [PList [PObj ''SourceFile''
                           [(''location'', PStr ''a.mzML''), (''args'', PList []), (''id'', PInt 1)]],
                  PList [],
                  PList [PObj ''SpectraData'' [(''id'', PInt 7), (''args'', PList []), (''id'', PInt 1)],
                         PObj ''SpectraData'' [(''id'', PInt 8), (''args'', PList []), (''id'', PInt 1)]]]),
               (''id'', PInt 1)])],
          flushed = [], finished = False\<rparr>\<rparr>"
  have run: "inputs demo_catalogue ?a (PTuple []) ?c open_session = (Ok, ?s2)"
    by (simp add: inputs_def on_value_def entities_eq build_mapping demo_catalogue_def
        write_new_def component_write_def on_writer_def serializer_write_def open_session_eq)
  note imp = normalization_one_entity_per_item
    [where k = demo_catalogue and a = ?a and b = "PTuple []" and c = ?c
       and s = open_session and ?s2.0 = ?s2,
     THEN conjunct2, THEN conjunct2, THEN conjunct2, THEN conjunct2, THEN conjunct2,
     THEN conjunct1]
  from imp run have "\<exists>sf sd sp.
         list_all2 (\<lambda>x e. build demo_catalogue ''SourceFile'' x = Inr e) (spec_normalized ?a) sf
       \<and> list_all2 (\<lambda>x e. build demo_catalogue ''SearchDatabase'' x = Inr e) (spec_normalized (PTuple [])) sd
       \<and> list_all2 (\<lambda>x e. build demo_catalogue ''SpectraData'' x = Inr e) (spec_normalized ?c) sp"
    by blast
  then have "\<exists>sf sd sp.
         list_all2 (\<lambda>x e. build demo_catalogue ''SourceFile'' x = Inr e) [?a] sf
       \<and> list_all2 (\<lambda>x e. build demo_catalogue ''SearchDatabase'' x = Inr e) [] sd
       \<and> list_all2 (\<lambda>x e. build demo_catalogue ''SpectraData'' x = Inr e)
           [PDict [(''id'', PInt 7)], PDict [(''id'', PInt 8)]] sp"
    by simp
  with run show ?thesis by blast
qed

text \<open>
  C5, counterexample: a lone mapping given as \<open>additional_search_params\<close> reaches the
  protocol's constructor as the mapping itself, not as the one-element list that
  \<open>ensure_iterable\<close> makes of it, and no entity is built from it.
\<close>

theorem additional_search_params_not_normalized_counterexample:
  "protocol_arguments demo_catalogue (PStr ''ms-ms search'') (PInt 1) (PInt 1)
       (PDict [(''name'', PStr ''parent mass type mono'')]) (PTuple []) (PTuple [])
       PNone PNone PNone
     = Inr [PStr ''ms-ms search'', PInt 1, PInt 1,
            PDict [(''name'', PStr ''parent mass type mono'')], PList [], PList [], PNone, PNone,
            PObj ''Threshold'' [(''args'', PList [PNone]), (''id'', PInt 1)]]
   \<and> PDict [(''name'', PStr ''parent mass type mono'')]
       \<noteq> ensure_iterable (PDict [(''name'', PStr ''parent mass type mono'')])"
  by (simp add: protocol_arguments_def try_with_def entities_eq tolerance_def demo_catalogue_def
      ensure_iterable_def)

section \<open>The identification protocol\<close>

lemma spectrum_identification_protocol_ok:
  assumes "protocol_arguments k st asid pid asp enz mods ft pt thr = Inr args"
    and "k ''SpectrumIdentificationProtocol'' args [] = Inr protocol"
    and "writer s = Some w" and "\<not> finished w"
  shows "spectrum_identification_protocol k st asid pid asp enz mods ft pt thr s
           = (Ok, s\<lparr>writer := Some (w\<lparr>events := events w @ [Node protocol]\<rparr>)\<rparr>)"
  using assms by (simp add: spectrum_identification_protocol_def on_value_def write_new_ok)

text \<open>
  C7. A \<open>fragment_tolerance\<close> or \<open>parent_tolerance\<close> that is a list or a tuple is
  replaced by the \<^verbatim>\<open>FragmentTolerance\<close> or \<^verbatim>\<open>ParentTolerance\<close> built positionally
  from its elements; any other value is passed on as it is. The threshold handed to the
  protocol is always \<^verbatim>\<open>Threshold(threshold)\<close>, whatever \<open>threshold\<close> is. With these
  arguments the protocol is built and written.
\<close>

theorem protocol_tolerances_and_threshold:
  "tolerance k c (PList xs) = k c xs []
   \<and> tolerance k c (PTuple xs) = k c xs []
   \<and> (\<not> is_list_or_tuple v \<longrightarrow> tolerance k c v = Inr v)
   \<and> (protocol_arguments k st asid pid asp enz mods ft pt thr = Inr args \<longrightarrow>
          tolerance k ''FragmentTolerance'' ft = Inr (args ! 6)
        \<and> tolerance k ''ParentTolerance'' pt = Inr (args ! 7)
        \<and> k ''Threshold'' [thr] [] = Inr (args ! 8))
   \<and> (entities k ''Enzyme'' enz = Inr es
        \<and> entities k ''SearchModification'' mods = Inr ms
        \<and> tolerance k ''FragmentTolerance'' ft = Inr ft1
        \<and> tolerance k ''ParentTolerance'' pt = Inr pt1
        \<and> k ''Threshold'' [thr] [] = Inr th
        \<and> k ''SpectrumIdentificationProtocol''
             [st, asid, pid, asp, PList es, PList ms, ft1, pt1, th] [] = Inr protocol
        \<and> writer s = Some w \<and> \<not> finished w \<longrightarrow>
        spectrum_identification_protocol k st asid pid asp enz mods ft pt thr s
          = (Ok, s\<lparr>writer := Some (w\<lparr>events := events w @ [Node protocol]\<rparr>)\<rparr>))"
proof -
  have a: "protocol_arguments k st asid pid asp enz mods ft pt thr = Inr args \<longrightarrow>
          tolerance k ''FragmentTolerance'' ft = Inr (args ! 6)
        \<and> tolerance k ''ParentTolerance'' pt = Inr (args ! 7)
        \<and> k ''Threshold'' [thr] [] = Inr (args ! 8)"
    using protocol_arguments_success [of k st asid pid asp enz mods ft pt thr args]
    by auto
  have b: "entities k ''Enzyme'' enz = Inr es
        \<and> entities k ''SearchModification'' mods = Inr ms
        \<and> tolerance k ''FragmentTolerance'' ft = Inr ft1
        \<and> tolerance k ''ParentTolerance'' pt = Inr pt1
        \<and> k ''Threshold'' [thr] [] = Inr th
        \<and> k ''SpectrumIdentificationProtocol''
             [st, asid, pid, asp, PList es, PList ms, ft1, pt1, th] [] = Inr protocol
        \<and> writer s = Some w \<and> \<not> finished w \<longrightarrow>
        spectrum_identification_protocol k st asid pid asp enz mods ft pt thr s
          = (Ok, s\<lparr>writer := Some (w\<lparr>events := events w @ [Node protocol]\<rparr>)\<rparr>)"
    using spectrum_identification_protocol_ok
      [OF protocol_arguments_ok [of k enz es mods ms ft ft1 pt pt1 thr th st asid pid asp]]
    by blast
  from a b show ?thesis
    by (simp add: tolerance_cases)
qed

text \<open>
  C7, witness: a fragment tolerance given as a triple, a parent tolerance given as an
  object, and no threshold.
\<close>

theorem protocol_tolerances_and_threshold_witness:
  "spectrum_identification_protocol demo_catalogue (PStr ''ms-ms search'') (PInt 1) (PInt 1)
       (PTuple []) (PTuple []) (PTuple [])
       (PTuple [PInt 5, PInt 5, PStr ''ppm'']) (PObj ''ParentTolerance'' []) PNone open_session
     = (Ok, open_session\<lparr>writer := Some \<lparr>scopes = [''MzIdentML''],
          events = [StartEl ''MzIdentML'' [],
            Node (PObj ''SpectrumIdentificationProtocol''
              [(''args'', PList
                 [PStr ''ms-ms search'', PInt 1, PInt 1, PTuple [], PList [], PList [],
                  PObj ''FragmentTolerance''
                    [(''args'', PList [PInt 5, PInt 5, PStr ''ppm'']), (''id'', PInt 1)],
                  PObj ''ParentTolerance'' [],
                  PObj ''Threshold'' [(''args'', PList [PNone]), (''id'', PInt 1)]]),
               (''id'', PInt 1)])],
          flushed = [], finished = False\<rparr>\<rparr>)"
proof -
  let ?w = "\<lparr>scopes = [''MzIdentML''], events = [StartEl ''MzIdentML'' []],
             flushed = [], finished = False\<rparr>"
  let ?ft = "PObj ''FragmentTolerance''
               [(''args'', PList [PInt 5, PInt 5, PStr ''ppm'']), (''id'', PInt 1)]"
  let ?th = "PObj ''Threshold'' [(''args'', PList [PNone]), (''id'', PInt 1)]"
  let ?args = "[PStr ''ms-ms search'', PInt 1, PInt 1, PTuple [], PList [], PList [],
                ?ft, PObj ''ParentTolerance'' [], ?th]"
  have h: "entities demo_catalogue ''Enzyme'' (PTuple []) = Inr []
        \<and> entities demo_catalogue ''SearchModification'' (PTuple []) = Inr []
        \<and> tolerance demo_catalogue ''FragmentTolerance'' (PTuple [PInt 5, PInt 5, PStr ''ppm'']) = Inr ?ft
        \<and> tolerance demo_catalogue ''ParentTolerance'' (PObj ''ParentTolerance'' [])
            = Inr (PObj ''ParentTolerance'' [])
        \<and> demo_catalogue ''Threshold'' [PNone] [] = Inr ?th
        \<and> demo_catalogue ''SpectrumIdentificationProtocol'' ?args []
            = Inr (PObj ''SpectrumIdentificationProtocol'' [(''args'', PList ?args), (''id'', PInt 1)])
        \<and> writer open_session = Some ?w \<and> \<not> finished ?w"
    by (simp add: entities_eq tolerance_def try_with_def demo_catalogue_def open_session_eq)
  note imp = protocol_tolerances_and_threshold
    [where k = demo_catalogue and enz = "PTuple []" and mods = "PTuple []"
       and ft = "PTuple [PInt 5, PInt 5, PStr ''ppm'']" and pt = "PObj ''ParentTolerance'' []"
       and thr = PNone and s = open_session and w = ?w and es = "[]" and ms = "[]"
       and ?ft1.0 = ?ft and ?pt1.0 = "PObj ''ParentTolerance'' []" and th = ?th
       and st = "PStr ''ms-ms search''" and asid = "PInt 1" and pid = "PInt 1"
       and asp = "PTuple []"
       and protocol = "PObj ''SpectrumIdentificationProtocol'' [(''args'', PList ?args), (''id'', PInt 1)]",
     THEN conjunct2, THEN conjunct2, THEN conjunct2, THEN conjunct2]
  from imp h show ?thesis by (simp add: open_session_eq)
qed

section \<open>Collections written from generators\<close>

lemma write_each_ok:
  "\<not> finished w \<Longrightarrow> comprehension (produce k th) ss = Inr es \<Longrightarrow>
   write_each k (Stream th ss) w = (Ok, w\<lparr>events := events w @ map Node es\<rparr>, Stream th [])"
proof (induction ss arbitrary: w es)
  case Nil
  then show ?case by simp
next
  case (Cons x xs)
  from Cons.prems(2) obtain v vs where v: "produce k th x = Inr v"
    and vs: "comprehension (produce k th) xs = Inr vs" and es: "es = v # vs"
    by (auto split: sum.splits)
  let ?w1 = "w\<lparr>events := events w @ [Node v]\<rparr>"
  have "\<not> finished ?w1" using Cons.prems(1) by simp
  from Cons.IH [OF this vs] v Cons.prems(1) es show ?case
    by (simp add: serializer_write_def)
qed

lemma write_all3_ok:
  assumes "\<not> finished w"
    and "comprehension (produce k t1) xs = Inr es1"
    and "comprehension (produce k t2) ys = Inr es2"
    and "comprehension (produce k t3) zs = Inr es3"
  shows "write_all k [Stream t1 xs, Stream t2 ys, Stream t3 zs] w
      = (Ok, w\<lparr>events := events w @ map Node (es1 @ es2 @ es3)\<rparr>,
         [Stream t1 [], Stream t2 [], Stream t3 []])"
proof -
  let ?w1 = "w\<lparr>events := events w @ map Node es1\<rparr>"
  let ?w2 = "w\<lparr>events := events w @ map Node es1 @ map Node es2\<rparr>"
  let ?w3 = "w\<lparr>events := events w @ map Node es1 @ map Node es2 @ map Node es3\<rparr>"
  have 1: "write_each k (Stream t1 xs) w = (Ok, ?w1, Stream t1 [])"
    using assms by (simp add: write_each_ok)
  have 2: "write_each k (Stream t2 ys) ?w1 = (Ok, ?w2, Stream t2 [])"
    using assms by (simp add: write_each_ok)
  have 3: "write_each k (Stream t3 zs) ?w2 = (Ok, ?w3, Stream t3 [])"
    using assms by (simp add: write_each_ok)
  show ?thesis by (simp add: 1 2 3)
qed

lemma sequence_collection_streams_eq:
  "sequence_collection_streams db pep pe =
     Inr [Stream (EntityOf ''DBSequence'') (spec_normalized db),
          Stream (EntityOf ''Peptide'') (spec_normalized pep),
          Stream (EntityOf ''PeptideEvidence'') (spec_normalized pe)]"
  by (simp add: sequence_collection_streams_def generator_def try_with_def
      iter_items_ensure_iterable)

lemma collection_write3_ok:
  assumes "\<not> finished w"
    and "comprehension (produce k t1) xs = Inr es1"
    and "comprehension (produce k t2) ys = Inr es2"
    and "comprehension (produce k t3) zs = Inr es3"
  shows "collection_write k (n, at) [Stream t1 xs, Stream t2 ys, Stream t3 zs] w
      = (Ok, w\<lparr>events := events w @ [StartEl n at] @ map Node (es1 @ es2 @ es3) @ [EndEl n]\<rparr>,
         [Stream t1 [], Stream t2 [], Stream t3 []])"
proof -
  let ?w1 = "w\<lparr>scopes := n # scopes w, events := events w @ [StartEl n at]\<rparr>"
  let ?w2 = "w\<lparr>scopes := n # scopes w,
               events := events w @ StartEl n at # map Node es1 @ map Node es2 @ map Node es3\<rparr>"
  have e: "handle_enter (n, at) w = Inr ?w1" using assms(1) by (simp add: handle_enter_def)
  have "\<not> finished ?w1" using assms(1) by simp
  from write_all3_ok [OF this assms(2-4)]
  have a: "write_all k [Stream t1 xs, Stream t2 ys, Stream t3 zs] ?w1
      = (Ok, ?w2, [Stream t1 [], Stream t2 [], Stream t3 []])"
    by simp
  have x: "handle_exit (n, at) ?w2
      = Inr (w\<lparr>events := events w @ [StartEl n at] @ map Node (es1 @ es2 @ es3) @ [EndEl n]\<rparr>)"
    using assms(1) by (simp add: handle_exit_def)
  show ?thesis
    unfolding collection_write_def e by (simp only: sum.case a prod.case result.case x)
qed

lemma write_each_error:
  "\<not> finished w \<Longrightarrow> comprehension (produce k th) xs = Inr vs \<Longrightarrow> produce k th x = Inl e \<Longrightarrow>
   write_each k (Stream th (xs @ x # ys)) w
     = (Raised e, w\<lparr>events := events w @ map Node vs\<rparr>, Stream th [])"
proof (induction xs arbitrary: w vs)
  case Nil
  then show ?case by simp
next
  case (Cons a xs)
  from Cons.prems(2) obtain v us where v: "produce k th a = Inr v"
    and us: "comprehension (produce k th) xs = Inr us" and vs: "vs = v # us"
    by (auto split: sum.splits)
  let ?w1 = "w\<lparr>events := events w @ [Node v]\<rparr>"
  have "\<not> finished ?w1" using Cons.prems(1) by simp
  from Cons.IH [OF this us Cons.prems(3)] v Cons.prems(1) vs show ?case
    by (simp add: serializer_write_def)
qed

lemma write_each_exhausts:
  "\<not> finished w \<Longrightarrow> write_each k (Stream th ss) w = (r, w1, g1) \<Longrightarrow> g1 = Stream th []"
proof (induction ss arbitrary: w)
  case Nil
  then show ?case by simp
next
  case (Cons a ss)
  show ?case
  proof (cases "produce k th a")
    case (Inl e)
    with Cons.prems show ?thesis by simp
  next
    case (Inr v)
    let ?w1 = "w\<lparr>events := events w @ [Node v]\<rparr>"
    have nf: "\<not> finished ?w1" using Cons.prems(1) by simp
    from Cons.prems Inr have "write_each k (Stream th ss) ?w1 = (r, w1, g1)"
      by (simp add: serializer_write_def)
    from Cons.IH [OF nf this] show ?thesis .
  qed
qed

lemma single_pass:
  assumes "\<not> finished w" and "write_each k g w = (r, w1, g1)"
  shows "pending g1 = [] \<and> stream_list k g1 = Inr [] \<and> stream_next k g1 = (None, g1)
       \<and> write_each k g1 w1 = (Ok, w1, g1)"
proof -
  obtain th ss where g: "g = Stream th ss" by (cases g)
  from write_each_exhausts [OF assms(1) assms(2) [unfolded g]] show ?thesis by simp
qed

lemma collection_write_late_error:
  assumes "\<not> finished w" and "comprehension (produce k t1) xs = Inr vs"
    and "produce k t1 x = Inl e"
  shows "collection_write k (n, at) (Stream t1 (xs @ x # ys) # gs) w
      = (Raised e, w\<lparr>events := events w @ [StartEl n at] @ map Node vs @ [EndEl n]\<rparr>,
         Stream t1 [] # gs)"
proof -
  let ?w1 = "w\<lparr>scopes := n # scopes w, events := events w @ [StartEl n at]\<rparr>"
  let ?w2 = "w\<lparr>scopes := n # scopes w, events := events w @ StartEl n at # map Node vs\<rparr>"
  have e: "handle_enter (n, at) w = Inr ?w1" using assms(1) by (simp add: handle_enter_def)
  have "\<not> finished ?w1" using assms(1) by simp
  from write_each_error [OF this assms(2,3)]
  have a: "write_all k (Stream t1 (xs @ x # ys) # gs) ?w1 = (Raised e, ?w2, Stream t1 [] # gs)"
    by simp
  have x: "handle_exit (n, at) ?w2
      = Inr (w\<lparr>events := events w @ [StartEl n at] @ map Node vs @ [EndEl n]\<rparr>)"
    using assms(1) by (simp add: handle_exit_def)
  show ?thesis
    unfolding collection_write_def e by (simp only: sum.case a prod.case x)
qed

lemma collection_write_later_error:
  assumes "\<not> finished w" and "comprehension (produce k t1) xs1 = Inr es1"
    and "comprehension (produce k t2) xs = Inr vs" and "produce k t2 x = Inl e"
  shows "collection_write k (n, at) (Stream t1 xs1 # Stream t2 (xs @ x # ys) # gs) w
      = (Raised e, w\<lparr>events := events w @ [StartEl n at] @ map Node (es1 @ vs) @ [EndEl n]\<rparr>,
         Stream t1 [] # Stream t2 [] # gs)"
proof -
  let ?w1 = "w\<lparr>scopes := n # scopes w, events := events w @ [StartEl n at]\<rparr>"
  let ?w2 = "w\<lparr>scopes := n # scopes w, events := events w @ StartEl n at # map Node es1\<rparr>"
  let ?w3 = "w\<lparr>scopes := n # scopes w,
               events := events w @ StartEl n at # map Node es1 @ map Node vs\<rparr>"
  have e: "handle_enter (n, at) w = Inr ?w1" using assms(1) by (simp add: handle_enter_def)
  have n1: "\<not> finished ?w1" using assms(1) by simp
  have n2: "\<not> finished ?w2" using assms(1) by simp
  have 1: "write_each k (Stream t1 xs1) ?w1 = (Ok, ?w2, Stream t1 [])"
    using write_each_ok [OF n1 assms(2)] by simp
  have 2: "write_each k (Stream t2 (xs @ x # ys)) ?w2 = (Raised e, ?w3, Stream t2 [])"
    using write_each_error [OF n2 assms(3,4)] by simp
  have a: "write_all k (Stream t1 xs1 # Stream t2 (xs @ x # ys) # gs) ?w1
      = (Raised e, ?w3, Stream t1 [] # Stream t2 [] # gs)"
    by (simp add: 1 2)
  have x: "handle_exit (n, at) ?w3
      = Inr (w\<lparr>events := events w @ [StartEl n at] @ map Node (es1 @ vs) @ [EndEl n]\<rparr>)"
    using assms(1) by (simp add: handle_exit_def)
  show ?thesis
    unfolding collection_write_def e by (simp only: sum.case a prod.case x)
qed

lemma stream_collection_unset: "writer s = None \<Longrightarrow> stream_collection k n at gs s = (Raised AttributeError, s)"
  by (simp add: stream_collection_def on_value_def element_helper_def)

lemma stream_collection_ok:
  assumes "writer s = Some w"
    and "collection_write k (n, at) gs w = (r, w1, gs1)"
  shows "stream_collection k n at gs s = (r, s\<lparr>writer := Some w1\<rparr>)"
  using assms by (simp add: stream_collection_def on_value_def element_helper_def)

lemma sequence_collection_ok:
  assumes "writer s = Some w" and "\<not> finished w"
    and "list_all2 (\<lambda>x e. build k ''DBSequence'' x = Inr e) (spec_normalized db) ds"
    and "list_all2 (\<lambda>x e. build k ''Peptide'' x = Inr e) (spec_normalized pep) ps"
    and "list_all2 (\<lambda>x e. build k ''PeptideEvidence'' x = Inr e) (spec_normalized pe) es"
  shows "collection_write k (''SequenceCollection'', [])
           [Stream (EntityOf ''DBSequence'') (spec_normalized db),
            Stream (EntityOf ''Peptide'') (spec_normalized pep),
            Stream (EntityOf ''PeptideEvidence'') (spec_normalized pe)] w
         = (Ok, w\<lparr>events := events w @ [StartEl ''SequenceCollection'' []]
                       @ map Node (ds @ ps @ es) @ [EndEl ''SequenceCollection'']\<rparr>,
            [Stream (EntityOf ''DBSequence'') [], Stream (EntityOf ''Peptide'') [],
             Stream (EntityOf ''PeptideEvidence'') []])"
    and "sequence_collection k db pep pe s
         = (Ok, s\<lparr>writer := Some (w\<lparr>events := events w @ [StartEl ''SequenceCollection'' []]
                       @ map Node (ds @ ps @ es) @ [EndEl ''SequenceCollection'']\<rparr>)\<rparr>)"
proof -
  have c: "comprehension (produce k (EntityOf ''DBSequence'')) (spec_normalized db) = Inr ds"
    "comprehension (produce k (EntityOf ''Peptide'')) (spec_normalized pep) = Inr ps"
    "comprehension (produce k (EntityOf ''PeptideEvidence'')) (spec_normalized pe) = Inr es"
    using assms(3-5) by (simp_all add: comprehension_all2)
  from collection_write3_ok [OF assms(2) c]
  show 1: "collection_write k (''SequenceCollection'', [])
           [Stream (EntityOf ''DBSequence'') (spec_normalized db),
            Stream (EntityOf ''Peptide'') (spec_normalized pep),
            Stream (EntityOf ''PeptideEvidence'') (spec_normalized pe)] w
         = (Ok, w\<lparr>events := events w @ [StartEl ''SequenceCollection'' []]
                       @ map Node (ds @ ps @ es) @ [EndEl ''SequenceCollection'']\<rparr>,
            [Stream (EntityOf ''DBSequence'') [], Stream (EntityOf ''Peptide'') [],
             Stream (EntityOf ''PeptideEvidence'') []])" .
  show "sequence_collection k db pep pe s
         = (Ok, s\<lparr>writer := Some (w\<lparr>events := events w @ [StartEl ''SequenceCollection'' []]
                       @ map Node (ds @ ps @ es) @ [EndEl ''SequenceCollection'']\<rparr>)\<rparr>)"
    unfolding sequence_collection_def sequence_collection_streams_eq on_value_def
    by (simp only: sum.case stream_collection_ok [OF assms(1) 1])
qed

lemma sequence_collection_unset:
  "writer s = None \<Longrightarrow> sequence_collection k db pep pe s = (Raised AttributeError, s)"
  by (simp add: sequence_collection_def sequence_collection_streams_eq on_value_def
      stream_collection_unset)

lemma sequence_collection_late_error:
  assumes "writer s = Some w" and "\<not> finished w"
    and "spec_normalized db = xs @ bad # ys"
    and "list_all2 (\<lambda>x e. build k ''DBSequence'' x = Inr e) xs ds"
    and "build k ''DBSequence'' bad = Inl err"
  shows "sequence_collection k db pep pe s
         = (Raised err, s\<lparr>writer := Some (w\<lparr>events := events w @ [StartEl ''SequenceCollection'' []]
                       @ map Node ds @ [EndEl ''SequenceCollection'']\<rparr>)\<rparr>)"
proof -
  have c: "comprehension (produce k (EntityOf ''DBSequence'')) xs = Inr ds"
    using assms(4) by (simp add: comprehension_all2)
  have p: "produce k (EntityOf ''DBSequence'') bad = Inl err"
    using assms(5) by simp
  note 1 = collection_write_late_error [OF assms(2) c p,
      of "''SequenceCollection''" "[]" ys
         "[Stream (EntityOf ''Peptide'') (spec_normalized pep),
           Stream (EntityOf ''PeptideEvidence'') (spec_normalized pe)]"]
  show ?thesis
    unfolding sequence_collection_def sequence_collection_streams_eq assms(3) on_value_def
    by (simp only: sum.case stream_collection_ok [OF assms(1) 1])
qed

lemma sequence_collection_later_error:
  assumes "writer s = Some w" and "\<not> finished w"
    and "list_all2 (\<lambda>x e. build k ''DBSequence'' x = Inr e) (spec_normalized db) ds"
    and "spec_normalized pep = xs @ bad # ys"
    and "list_all2 (\<lambda>x e. build k ''Peptide'' x = Inr e) xs ps"
    and "build k ''Peptide'' bad = Inl err"
  shows "sequence_collection k db pep pe s
         = (Raised err, s\<lparr>writer := Some (w\<lparr>events := events w @ [StartEl ''SequenceCollection'' []]
                       @ map Node (ds @ ps) @ [EndEl ''SequenceCollection'']\<rparr>)\<rparr>)"
proof -
  have c1: "comprehension (produce k (EntityOf ''DBSequence'')) (spec_normalized db) = Inr ds"
    using assms(3) by (simp add: comprehension_all2)
  have c2: "comprehension (produce k (EntityOf ''Peptide'')) xs = Inr ps"
    using assms(5) by (simp add: comprehension_all2)
  have p: "produce k (EntityOf ''Peptide'') bad = Inl err"
    using assms(6) by simp
  note 1 = collection_write_later_error [OF assms(2) c1 c2 p,
      of "''SequenceCollection''" "[]" ys
         "[Stream (EntityOf ''PeptideEvidence'') (spec_normalized pe)]"]
  show ?thesis
    unfolding sequence_collection_def sequence_collection_streams_eq assms(4) on_value_def
    by (simp only: sum.case stream_collection_ok [OF assms(1) 1])
qed

text \<open>
  C6. \<open>sequence_collection\<close> hands the collection three generators that hold the items
  of the normalised arguments and nothing built from them. No constructor runs before
  the write asks for an item: on an unset writer the operation raises the writer's
  \<^verbatim>\<open>AttributeError\<close> whatever the items are, and an item that cannot be built raises
  only when it is reached, after the element has been opened and the entities before it
  written (those of the earlier sequences included); the element is closed on the way
  out. When every item can be built, the write takes each generator once, in the order
  given, and writes one entity per item between the start and the end of the element.
  Whatever the outcome of a pass over a generator, it leaves the generator exhausted:
  iterating it again yields nothing and raises nothing.
\<close>

theorem sequence_collection_lazy_single_pass:
  "sequence_collection_streams db pep pe =
       Inr [Stream (EntityOf ''DBSequence'') (spec_normalized db),
            Stream (EntityOf ''Peptide'') (spec_normalized pep),
            Stream (EntityOf ''PeptideEvidence'') (spec_normalized pe)]
   \<and> (writer s = None \<longrightarrow> sequence_collection k db pep pe s = (Raised AttributeError, s))
   \<and> (writer s = Some w \<and> \<not> finished w
        \<and> list_all2 (\<lambda>x e. build k ''DBSequence'' x = Inr e) (spec_normalized db) ds
        \<and> list_all2 (\<lambda>x e. build k ''Peptide'' x = Inr e) (spec_normalized pep) ps
        \<and> list_all2 (\<lambda>x e. build k ''PeptideEvidence'' x = Inr e) (spec_normalized pe) es \<longrightarrow>
          collection_write k (''SequenceCollection'', [])
             [Stream (EntityOf ''DBSequence'') (spec_normalized db),
              Stream (EntityOf ''Peptide'') (spec_normalized pep),
              Stream (EntityOf ''PeptideEvidence'') (spec_normalized pe)] w
           = (Ok, w\<lparr>events := events w @ [StartEl ''SequenceCollection'' []]
                         @ map Node (ds @ ps @ es) @ [EndEl ''SequenceCollection'']\<rparr>,
              [Stream (EntityOf ''DBSequence'') [], Stream (EntityOf ''Peptide'') [],
               Stream (EntityOf ''PeptideEvidence'') []])
        \<and> sequence_collection k db pep pe s
           = (Ok, s\<lparr>writer := Some (w\<lparr>events := events w @ [StartEl ''SequenceCollection'' []]
                         @ map Node (ds @ ps @ es) @ [EndEl ''SequenceCollection'']\<rparr>)\<rparr>))
   \<and> (writer s = Some w \<and> \<not> finished w
        \<and> spec_normalized db = xs @ bad # ys
        \<and> list_all2 (\<lambda>x e. build k ''DBSequence'' x = Inr e) xs ds
        \<and> build k ''DBSequence'' bad = Inl err \<longrightarrow>
          sequence_collection k db pep pe s
           = (Raised err,
              s\<lparr>writer := Some (w\<lparr>events := events w @ [StartEl ''SequenceCollection'' []]
                         @ map Node ds @ [EndEl ''SequenceCollection'']\<rparr>)\<rparr>))
   \<and> (writer s = Some w \<and> \<not> finished w
        \<and> list_all2 (\<lambda>x e. build k ''DBSequence'' x = Inr e) (spec_normalized db) ds
        \<and> spec_normalized pep = xs @ bad # ys
        \<and> list_all2 (\<lambda>x e. build k ''Peptide'' x = Inr e) xs ps
        \<and> build k ''Peptide'' bad = Inl err \<longrightarrow>
          sequence_collection k db pep pe s
           = (Raised err,
              s\<lparr>writer := Some (w\<lparr>events := events w @ [StartEl ''SequenceCollection'' []]
                         @ map Node (ds @ ps) @ [EndEl ''SequenceCollection'']\<rparr>)\<rparr>))
   \<and> (\<not> finished w \<and> write_each k g w = (r, w1, g1) \<longrightarrow>
          pending g1 = [] \<and> stream_list k g1 = Inr [] \<and> stream_next k g1 = (None, g1)
        \<and> write_each k g1 w1 = (Ok, w1, g1))"
proof -
  have 1: "writer s = None \<longrightarrow> sequence_collection k db pep pe s = (Raised AttributeError, s)"
    by (simp add: sequence_collection_unset)
  have 2: "writer s = Some w \<and> \<not> finished w
        \<and> list_all2 (\<lambda>x e. build k ''DBSequence'' x = Inr e) (spec_normalized db) ds
        \<and> list_all2 (\<lambda>x e. build k ''Peptide'' x = Inr e) (spec_normalized pep) ps
        \<and> list_all2 (\<lambda>x e. build k ''PeptideEvidence'' x = Inr e) (spec_normalized pe) es \<longrightarrow>
          collection_write k (''SequenceCollection'', [])
             [Stream (EntityOf ''DBSequence'') (spec_normalized db),
              Stream (EntityOf ''Peptide'') (spec_normalized pep),
              Stream (EntityOf ''PeptideEvidence'') (spec_normalized pe)] w
           = (Ok, w\<lparr>events := events w @ [StartEl ''SequenceCollection'' []]
                         @ map Node (ds @ ps @ es) @ [EndEl ''SequenceCollection'']\<rparr>,
              [Stream (EntityOf ''DBSequence'') [], Stream (EntityOf ''Peptide'') [],
               Stream (EntityOf ''PeptideEvidence'') []])
        \<and> sequence_collection k db pep pe s
           = (Ok, s\<lparr>writer := Some (w\<lparr>events := events w @ [StartEl ''SequenceCollection'' []]
                         @ map Node (ds @ ps @ es) @ [EndEl ''SequenceCollection'']\<rparr>)\<rparr>)"
    using sequence_collection_ok [of s w k db ds pep ps pe es] by blast
  have 3: "writer s = Some w \<and> \<not> finished w
        \<and> spec_normalized db = xs @ bad # ys
        \<and> list_all2 (\<lambda>x e. build k ''DBSequence'' x = Inr e) xs ds
        \<and> build k ''DBSequence'' bad = Inl err \<longrightarrow>
          sequence_collection k db pep pe s
           = (Raised err,
              s\<lparr>writer := Some (w\<lparr>events := events w @ [StartEl ''SequenceCollection'' []]
                         @ map Node ds @ [EndEl ''SequenceCollection'']\<rparr>)\<rparr>)"
    using sequence_collection_late_error [of s w db xs bad ys k ds err pep pe] by blast
  have 4: "writer s = Some w \<and> \<not> finished w
        \<and> list_all2 (\<lambda>x e. build k ''DBSequence'' x = Inr e) (spec_normalized db) ds
        \<and> spec_normalized pep = xs @ bad # ys
        \<and> list_all2 (\<lambda>x e. build k ''Peptide'' x = Inr e) xs ps
        \<and> build k ''Peptide'' bad = Inl err \<longrightarrow>
          sequence_collection k db pep pe s
           = (Raised err,
              s\<lparr>writer := Some (w\<lparr>events := events w @ [StartEl ''SequenceCollection'' []]
                         @ map Node (ds @ ps) @ [EndEl ''SequenceCollection'']\<rparr>)\<rparr>)"
    using sequence_collection_later_error [of s w k db ds pep xs bad ys ps err pe] by blast
  have 5: "\<not> finished w \<and> write_each k g w = (r, w1, g1) \<longrightarrow>
          pending g1 = [] \<and> stream_list k g1 = Inr [] \<and> stream_next k g1 = (None, g1)
        \<and> write_each k g1 w1 = (Ok, w1, g1)"
    using single_pass [of w k g r w1 g1] by blast
  from sequence_collection_streams_eq [of db pep pe] 1 2 3 4 5 show ?thesis by blast
qed

text \<open>
  C6, witness. In the entered session: one sequence in a list, no peptides, and
  \<^verbatim>\<open>None\<close> as peptide evidence are written in order. With the stricter catalogue,
  which refuses an empty call: before entry the refused item is never built; in the
  entered session a refused second sequence, or a refused peptide, raises after the
  first sequence has been written, and the element is closed. A generator that has been
  written once yields nothing when written again.
\<close>

theorem sequence_collection_lazy_single_pass_witness:
  "sequence_collection demo_catalogue (PList [PDict [(''accession'', PStr ''P1'')]]) (PTuple []) PNone
       open_session
     = (Ok, open_session\<lparr>writer := Some \<lparr>scopes = [''MzIdentML''],
          events = [StartEl ''MzIdentML'' [], StartEl ''SequenceCollection'' [],
            Node (PObj ''DBSequence'' [(''accession'', PStr ''P1''), (''args'', PList []), (''id'', PInt 1)]),
            Node (PObj ''PeptideEvidence'' [(''args'', PList []), (''id'', PInt 1)]),
            EndEl ''SequenceCollection''],
          flushed = [], finished = False\<rparr>\<rparr>)
   \<and> sequence_collection strict_catalogue (PList [PNone]) (PTuple []) (PTuple []) fresh_session
     = (Raised AttributeError, fresh_session)
   \<and> sequence_collection strict_catalogue
        (PList [PDict [(''accession'', PStr ''P1'')], PNone]) (PTuple []) (PTuple []) open_session
     = (Raised ValidationError, open_session\<lparr>writer := Some \<lparr>scopes = [''MzIdentML''],
          events = [StartEl ''MzIdentML'' [], StartEl ''SequenceCollection'' [],
            Node (PObj ''DBSequence'' [(''accession'', PStr ''P1''), (''args'', PList [])]),
            EndEl ''SequenceCollection''],
          flushed = [], finished = False\<rparr>\<rparr>)
   \<and> sequence_collection strict_catalogue
        (PDict [(''accession'', PStr ''P1'')]) PNone (PTuple []) open_session
     = (Raised ValidationError, open_session\<lparr>writer := Some \<lparr>scopes = [''MzIdentML''],
          events = [StartEl ''MzIdentML'' [], StartEl ''SequenceCollection'' [],
            Node (PObj ''DBSequence'' [(''accession'', PStr ''P1''), (''args'', PList [])]),
            EndEl ''SequenceCollection''],
          flushed = [], finished = False\<rparr>\<rparr>)
   \<and> write_each demo_catalogue (Stream (EntityOf ''Peptide'') [PNone]) new_serializer
     = (Ok, new_serializer\<lparr>events := [Node (PObj ''Peptide'' [(''args'', PList []), (''id'', PInt 1)])]\<rparr>,
        Stream (EntityOf ''Peptide'') [])
   \<and> write_each demo_catalogue (Stream (EntityOf ''Peptide'') [])
        (new_serializer\<lparr>events := [Node (PObj ''Peptide'' [(''args'', PList []), (''id'', PInt 1)])]\<rparr>)
     = (Ok, new_serializer\<lparr>events := [Node (PObj ''Peptide'' [(''args'', PList []), (''id'', PInt 1)])]\<rparr>,
        Stream (EntityOf ''Peptide'') [])
   \<and> stream_list demo_catalogue (Stream (EntityOf ''Peptide'') []) = Inr []"
proof -
  let ?w = "\<lparr>scopes = [''MzIdentML''], events = [StartEl ''MzIdentML'' []],
             flushed = [], finished = False\<rparr>"
  let ?d = "PObj ''DBSequence'' [(''accession'', PStr ''P1''), (''args'', PList []), (''id'', PInt 1)]"
  let ?d' = "PObj ''DBSequence'' [(''accession'', PStr ''P1''), (''args'', PList [])]"
  let ?e = "PObj ''PeptideEvidence'' [(''args'', PList []), (''id'', PInt 1)]"
  let ?p = "PObj ''Peptide'' [(''args'', PList []), (''id'', PInt 1)]"
  let ?a = "PDict [(''accession'', PStr ''P1'')]"
  have h: "writer open_session = Some ?w \<and> \<not> finished ?w
        \<and> list_all2 (\<lambda>x e. build demo_catalogue ''DBSequence'' x = Inr e)
             (spec_normalized (PList [?a])) [?d]
        \<and> list_all2 (\<lambda>x e. build demo_catalogue ''Peptide'' x = Inr e) (spec_normalized (PTuple [])) []
        \<and> list_all2 (\<lambda>x e. build demo_catalogue ''PeptideEvidence'' x = Inr e) (spec_normalized PNone) [?e]"
    by (simp add: open_session_eq build_mapping build_falsy demo_catalogue_def)
  note a = sequence_collection_lazy_single_pass
    [where k = demo_catalogue and s = open_session and w = ?w
       and db = "PList [?a]" and pep = "PTuple []" and pe = PNone
       and ds = "[?d]" and ps = "[]" and es = "[?e]",
     THEN conjunct2, THEN conjunct2, THEN conjunct1]
  from a h have A: "sequence_collection demo_catalogue (PList [?a]) (PTuple []) PNone open_session
     = (Ok, open_session\<lparr>writer := Some (?w\<lparr>events := events ?w @ [StartEl ''SequenceCollection'' []]
                         @ map Node ([?d] @ [] @ [?e]) @ [EndEl ''SequenceCollection'']\<rparr>)\<rparr>)"
    by blast
  have u: "writer fresh_session = None"
    by (simp add: fresh_session_def MzIdentMLWriter_init_def)
  note b = sequence_collection_lazy_single_pass
    [where k = strict_catalogue and s = fresh_session and db = "PList [PNone]"
       and pep = "PTuple []" and pe = "PTuple []",
     THEN conjunct2, THEN conjunct1]
  from b u have B: "sequence_collection strict_catalogue (PList [PNone]) (PTuple []) (PTuple [])
       fresh_session = (Raised AttributeError, fresh_session)"
    by blast
  have hc: "writer open_session = Some ?w \<and> \<not> finished ?w
        \<and> spec_normalized (PList [?a, PNone]) = [?a] @ PNone # []
        \<and> list_all2 (\<lambda>x e. build strict_catalogue ''DBSequence'' x = Inr e) [?a] [?d']
        \<and> build strict_catalogue ''DBSequence'' PNone = Inl ValidationError"
    by (simp add: open_session_eq build_mapping build_falsy strict_catalogue_def)
  note c = sequence_collection_lazy_single_pass
    [where k = strict_catalogue and s = open_session and w = ?w
       and db = "PList [?a, PNone]" and pep = "PTuple []" and pe = "PTuple []"
       and xs = "[?a]" and bad = PNone and ys = "[]" and ds = "[?d']" and err = ValidationError,
     THEN conjunct2, THEN conjunct2, THEN conjunct2, THEN conjunct1]
  from c hc have C: "sequence_collection strict_catalogue (PList [?a, PNone]) (PTuple []) (PTuple [])
       open_session
     = (Raised ValidationError,
        open_session\<lparr>writer := Some (?w\<lparr>events := events ?w @ [StartEl ''SequenceCollection'' []]
                         @ map Node [?d'] @ [EndEl ''SequenceCollection'']\<rparr>)\<rparr>)"
    by blast
  have hd: "writer open_session = Some ?w \<and> \<not> finished ?w
        \<and> list_all2 (\<lambda>x e. build strict_catalogue ''DBSequence'' x = Inr e) (spec_normalized ?a) [?d']
        \<and> spec_normalized PNone = [] @ PNone # []
        \<and> list_all2 (\<lambda>x e. build strict_catalogue ''Peptide'' x = Inr e) [] []
        \<and> build strict_catalogue ''Peptide'' PNone = Inl ValidationError"
    by (simp add: open_session_eq build_mapping build_falsy strict_catalogue_def)
  note d = sequence_collection_lazy_single_pass
    [where k = strict_catalogue and s = open_session and w = ?w
       and db = ?a and pep = PNone and pe = "PTuple []"
       and xs = "[]" and bad = PNone and ys = "[]" and ds = "[?d']" and ps = "[]"
       and err = ValidationError,
     THEN conjunct2, THEN conjunct2, THEN conjunct2, THEN conjunct2, THEN conjunct1]
  from d hd have D: "sequence_collection strict_catalogue ?a PNone (PTuple []) open_session
     = (Raised ValidationError,
        open_session\<lparr>writer := Some (?w\<lparr>events := events ?w @ [StartEl ''SequenceCollection'' []]
                         @ map Node ([?d'] @ []) @ [EndEl ''SequenceCollection'']\<rparr>)\<rparr>)"
    by blast
  have he: "\<not> finished new_serializer
        \<and> write_each demo_catalogue (Stream (EntityOf ''Peptide'') [PNone]) new_serializer
            = (Ok, new_serializer\<lparr>events := [Node ?p]\<rparr>, Stream (EntityOf ''Peptide'') [])"
    by (simp add: new_serializer_def build_falsy demo_catalogue_def serializer_write_def)
  note e = sequence_collection_lazy_single_pass
    [where k = demo_catalogue and w = new_serializer and g = "Stream (EntityOf ''Peptide'') [PNone]"
       and r = Ok and ?w1.0 = "new_serializer\<lparr>events := [Node ?p]\<rparr>"
       and ?g1.0 = "Stream (EntityOf ''Peptide'') []",
     THEN conjunct2, THEN conjunct2, THEN conjunct2, THEN conjunct2, THEN conjunct2]
  from e he have E: "write_each demo_catalogue (Stream (EntityOf ''Peptide'') [])
        (new_serializer\<lparr>events := [Node ?p]\<rparr>)
     = (Ok, new_serializer\<lparr>events := [Node ?p]\<rparr>, Stream (EntityOf ''Peptide'') [])
     \<and> stream_list demo_catalogue (Stream (EntityOf ''Peptide'') []) = Inr []"
    by blast
  from A B C D he E show ?thesis
    by (simp add: open_session_eq)
qed

section \<open>Identification items\<close>

lemma call_kw_mapping: "call_kw f (PDict kw) = f kw"
  by (cases kw) (simp_all add: call_kw_def or_empty_def try_with_def)

lemma call_kw_falsy: "\<not> truthy s \<Longrightarrow> call_kw f s = f []"
  by (simp add: call_kw_def or_empty_def try_with_def)

lemma bind_call_ok:
  "list_all (\<lambda>n. n \<in> set (map fst kw)) req \<Longrightarrow>
   list_all (\<lambda>p. fst p \<in> set (req @ map fst dflt)) kw \<Longrightarrow>
   bind_call req dflt kw =
     Inr (\<lambda>n. case map_of kw n of
                 Some v \<Rightarrow> v
               | None \<Rightarrow> (case map_of dflt n of Some d \<Rightarrow> d | None \<Rightarrow> PNone))"
  by (simp add: bind_call_def)

lemma bind_call_missing:
  "\<not> list_all (\<lambda>n. n \<in> set (map fst kw)) req \<Longrightarrow> bind_call req dflt kw = Inl TypeError"
  by (simp add: bind_call_def)

lemma given_values:
  "list_all (\<lambda>n. n \<in> set (map fst kw)) req \<Longrightarrow>
   \<exists>vals. map (map_of kw) req = map Some vals
     \<and> map (\<lambda>n. case map_of kw n of Some v \<Rightarrow> v | None \<Rightarrow> d n) req = vals"
proof (induction req)
  case Nil
  then show ?case by simp
next
  case (Cons n req)
  from Cons.prems have "list_all (\<lambda>n. n \<in> set (map fst kw)) req" by simp
  from Cons.IH [OF this] obtain vals where v: "map (map_of kw) req = map Some vals"
    "map (\<lambda>n. case map_of kw n of Some v \<Rightarrow> v | None \<Rightarrow> d n) req = vals"
    by blast
  from Cons.prems have "n \<in> fst ` set kw" by simp
  then obtain x where x: "map_of kw n = Some x"
    by (metis domD dom_map_of_conv_image_fst)
  have "map (map_of kw) (n # req) = map Some (x # vals)
     \<and> map (\<lambda>n. case map_of kw n of Some v \<Rightarrow> v | None \<Rightarrow> d n) (n # req) = x # vals"
    using v x by simp
  then show ?case by (rule exI [of _ "x # vals"])
qed

lemma item_ok:
  assumes "list_all (\<lambda>n. n \<in> set (map fst kw)) item_required"
    and "list_all (\<lambda>p. fst p \<in> set (item_required @ map fst item_defaults)) kw"
  shows "\<exists>vals. map (map_of kw) item_required = map Some vals
     \<and> spectrum_identification_item k kw =
         k ''SpectrumIdentificationItem'' vals
           [(''cv_params'', ensure_iterable (case map_of kw ''cv_params'' of None \<Rightarrow> PTuple [] | Some v \<Rightarrow> v)),
            (''pass_threshold'', case map_of kw ''pass_threshold'' of None \<Rightarrow> PBool True | Some v \<Rightarrow> v),
            (''rank'', case map_of kw ''rank'' of None \<Rightarrow> PInt 1 | Some v \<Rightarrow> v)]"
proof -
  let ?a = "\<lambda>n. case map_of kw n of
                 Some v \<Rightarrow> v
               | None \<Rightarrow> (case map_of item_defaults n of Some d \<Rightarrow> d | None \<Rightarrow> PNone)"
  from given_values [OF assms(1), of "\<lambda>n. case map_of item_defaults n of Some d \<Rightarrow> d | None \<Rightarrow> PNone"]
  obtain vals where v: "map (map_of kw) item_required = map Some vals"
    "map ?a item_required = vals" by blast
  have "spectrum_identification_item k kw =
      k ''SpectrumIdentificationItem'' (map ?a item_required)
         [(''cv_params'', ensure_iterable (?a ''cv_params'')),
          (''pass_threshold'', ?a ''pass_threshold''),
          (''rank'', ?a ''rank'')]"
    by (simp add: spectrum_identification_item_def bind_call_ok [OF assms] try_with_def)
  also have "\<dots> = k ''SpectrumIdentificationItem'' vals
           [(''cv_params'', ensure_iterable (case map_of kw ''cv_params'' of None \<Rightarrow> PTuple [] | Some v \<Rightarrow> v)),
            (''pass_threshold'', case map_of kw ''pass_threshold'' of None \<Rightarrow> PBool True | Some v \<Rightarrow> v),
            (''rank'', case map_of kw ''rank'' of None \<Rightarrow> PInt 1 | Some v \<Rightarrow> v)]"
    unfolding v(2) by (simp add: item_defaults_def split: option.splits)
  finally show ?thesis using v(1) by blast
qed

lemma result_ok:
  assumes "list_all (\<lambda>n. n \<in> set (map fst kw)) result_required"
    and "list_all (\<lambda>p. fst p \<in> set (result_required @ map fst result_defaults)) kw"
  shows "spectrum_identification_result k kw =
     try_with (for_each_in (call_kw (spectrum_identification_item k))
                 (ensure_iterable (case map_of kw ''identifications'' of None \<Rightarrow> PTuple [] | Some v \<Rightarrow> v)))
       (\<lambda>items. k ''SpectrumIdentificationResult'' []
         [(''spectra_data_id'', case map_of kw ''spectra_data_id'' of None \<Rightarrow> PInt 1 | Some v \<Rightarrow> v),
          (''spectrum_id'', case map_of kw ''spectrum_id'' of None \<Rightarrow> PNone | Some v \<Rightarrow> v),
          (''id'', case map_of kw ''id'' of None \<Rightarrow> PNone | Some v \<Rightarrow> v),
          (''identifications'', PList items)])"
proof -
  let ?a = "\<lambda>n. case map_of kw n of
                 Some v \<Rightarrow> v
               | None \<Rightarrow> (case map_of result_defaults n of Some d \<Rightarrow> d | None \<Rightarrow> PNone)"
  have "spectrum_identification_result k kw =
     try_with (for_each_in (call_kw (spectrum_identification_item k))
                 (ensure_iterable (?a ''identifications'')))
       (\<lambda>items. k ''SpectrumIdentificationResult'' []
         [(''spectra_data_id'', ?a ''spectra_data_id''),
          (''spectrum_id'', ?a ''spectrum_id''),
          (''id'', ?a ''id''),
          (''identifications'', PList items)])"
    by (simp add: spectrum_identification_result_def bind_call_ok [OF assms] try_with_def)
  then show ?thesis
    by (simp add: result_defaults_def split: option.splits)
qed

text \<open>
  C8. For an item mapping that gives the seven required fields and no key that is not a
  parameter, the \<^verbatim>\<open>SpectrumIdentificationItem\<close> is built from the values given, with
  \<open>pass_threshold\<close> true and \<open>rank\<close> 1 when the mapping leaves them out and the values
  given otherwise. Every mapping among the \<open>identifications\<close> of a result reaches
  \<open>_spectrum_identification_item\<close> by keyword, and every result mapping of the list
  reaches \<open>_spectrum_identification_result\<close> the same way.
\<close>

theorem item_pass_threshold_and_rank:
  assumes "list_all (\<lambda>n. n \<in> set (map fst kw)) item_required"
    and "list_all (\<lambda>p. fst p \<in> set (item_required @ map fst item_defaults)) kw"
  shows "(\<exists>vals. map (map_of kw) item_required = map Some vals
           \<and> spectrum_identification_item k kw =
               k ''SpectrumIdentificationItem'' vals
                 [(''cv_params'',
                     ensure_iterable (case map_of kw ''cv_params'' of None \<Rightarrow> PTuple [] | Some v \<Rightarrow> v)),
                  (''pass_threshold'',
                     case map_of kw ''pass_threshold'' of None \<Rightarrow> PBool True | Some v \<Rightarrow> v),
                  (''rank'', case map_of kw ''rank'' of None \<Rightarrow> PInt 1 | Some v \<Rightarrow> v)])
       \<and> call_kw (spectrum_identification_item k) (PDict kw) = spectrum_identification_item k kw
       \<and> produce k ResultOf (PDict rkw) = spectrum_identification_result k rkw
       \<and> (list_all (\<lambda>n. n \<in> set (map fst rkw)) result_required
            \<and> list_all (\<lambda>p. fst p \<in> set (result_required @ map fst result_defaults)) rkw \<longrightarrow>
           spectrum_identification_result k rkw =
             try_with (for_each_in (call_kw (spectrum_identification_item k))
                         (ensure_iterable (case map_of rkw ''identifications'' of
                                             None \<Rightarrow> PTuple [] | Some v \<Rightarrow> v)))
               (\<lambda>items. k ''SpectrumIdentificationResult'' []
                 [(''spectra_data_id'', case map_of rkw ''spectra_data_id'' of None \<Rightarrow> PInt 1 | Some v \<Rightarrow> v),
                  (''spectrum_id'', case map_of rkw ''spectrum_id'' of None \<Rightarrow> PNone | Some v \<Rightarrow> v),
                  (''id'', case map_of rkw ''id'' of None \<Rightarrow> PNone | Some v \<Rightarrow> v),
                  (''identifications'', PList items)]))"
  using item_ok [OF assms, of k] result_ok [of rkw k]
  by (simp add: call_kw_mapping)

text \<open>The fields of a sample item, without and with the two optional flags.\<close>

lemma sample_item_binds:
  "list_all (\<lambda>n. n \<in> set (map fst
       ([(''calculated_mass_to_charge'', PInt 500), (''experimental_mass_to_charge'', PInt 501),
         (''charge_state'', PInt 2), (''peptide_id'', PStr ''P1''),
         (''peptide_evidence_id'', PStr ''PE1''), (''score'', PInt 42), (''id'', PInt 1)] @ extra)))
     item_required"
  by (simp add: item_required_def)

text \<open>
  C8, witness: an item that leaves both flags out gets \<open>pass_threshold\<close> true and
  \<open>rank\<close> 1; an item that gives them keeps its own.
\<close>

theorem item_pass_threshold_and_rank_witness:
  "spectrum_identification_item demo_catalogue
      [(''calculated_mass_to_charge'', PInt 500), (''experimental_mass_to_charge'', PInt 501),
       (''charge_state'', PInt 2), (''peptide_id'', PStr ''P1''),
       (''peptide_evidence_id'', PStr ''PE1''), (''score'', PInt 42), (''id'', PInt 1)]
    = Inr (PObj ''SpectrumIdentificationItem''
        [(''cv_params'', PTuple []), (''pass_threshold'', PBool True), (''rank'', PInt 1),
         (''args'', PList [PInt 500, PInt 501, PInt 2, PStr ''P1'', PStr ''PE1'', PInt 42, PInt 1]),
         (''id'', PInt 1)])
   \<and> spectrum_identification_item demo_catalogue
      [(''calculated_mass_to_charge'', PInt 500), (''experimental_mass_to_charge'', PInt 501),
       (''charge_state'', PInt 2), (''peptide_id'', PStr ''P1''),
       (''peptide_evidence_id'', PStr ''PE1''), (''score'', PInt 42), (''id'', PInt 1),
       (''pass_threshold'', PBool False), (''rank'', PInt 3)]
    = Inr (PObj ''SpectrumIdentificationItem''
        [(''cv_params'', PTuple []), (''pass_threshold'', PBool False), (''rank'', PInt 3),
         (''args'', PList [PInt 500, PInt 501, PInt 2, PStr ''P1'', PStr ''PE1'', PInt 42, PInt 1]),
         (''id'', PInt 1)])"
proof -
  let ?kw = "[(''calculated_mass_to_charge'', PInt 500), (''experimental_mass_to_charge'', PInt 501),
       (''charge_state'', PInt 2), (''peptide_id'', PStr ''P1''),
       (''peptide_evidence_id'', PStr ''PE1''), (''score'', PInt 42), (''id'', PInt 1)]"
  let ?kw2 = "?kw @ [(''pass_threshold'', PBool False), (''rank'', PInt 3)]"
  have r1: "list_all (\<lambda>n. n \<in> set (map fst ?kw)) item_required"
    using sample_item_binds [of "[]"] by simp
  have k1: "list_all (\<lambda>p. fst p \<in> set (item_required @ map fst item_defaults)) ?kw"
    by (simp add: item_required_def item_defaults_def)
  have r2: "list_all (\<lambda>n. n \<in> set (map fst ?kw2)) item_required"
    using sample_item_binds [of "[(''pass_threshold'', PBool False), (''rank'', PInt 3)]"] by simp
  have k2: "list_all (\<lambda>p. fst p \<in> set (item_required @ map fst item_defaults)) ?kw2"
    by (simp add: item_required_def item_defaults_def)
  from item_pass_threshold_and_rank [OF r1 k1, of demo_catalogue, THEN conjunct1]
  have a: "spectrum_identification_item demo_catalogue ?kw
    = Inr (PObj ''SpectrumIdentificationItem''
        [(''cv_params'', PTuple []), (''pass_threshold'', PBool True), (''rank'', PInt 1),
         (''args'', PList [PInt 500, PInt 501, PInt 2, PStr ''P1'', PStr ''PE1'', PInt 42, PInt 1]),
         (''id'', PInt 1)])"
    by (auto simp: item_required_def demo_catalogue_def ensure_iterable_def)
  from item_pass_threshold_and_rank [OF r2 k2, of demo_catalogue, THEN conjunct1]
  have b: "spectrum_identification_item demo_catalogue ?kw2
    = Inr (PObj ''SpectrumIdentificationItem''
        [(''cv_params'', PTuple []), (''pass_threshold'', PBool False), (''rank'', PInt 3),
         (''args'', PList [PInt 500, PInt 501, PInt 2, PStr ''P1'', PStr ''PE1'', PInt 42, PInt 1]),
         (''id'', PInt 1)])"
    by (auto simp: item_required_def demo_catalogue_def ensure_iterable_def)
  from a b show ?thesis by simp
qed

section \<open>Falsy items\<close>

lemma entities_none: "entities k c PNone = try_with (k c [] []) (\<lambda>e. Inr [e])"
  by (simp add: entities_eq build_falsy try_with_def split: sum.splits)

lemma entities_singleton:
  "entities k c PNone = Inr es \<Longrightarrow> \<exists>e. es = [e] \<and> k c [] [] = Inr e"
  by (auto simp: entities_none try_with_def split: sum.splits)

lemma falsy_item_in_list:
  assumes "\<not> truthy x" and "entities k c (PList (xs @ x # ys)) = Inr es"
  shows "length es = length xs + 1 + length ys \<and> k c [] [] = Inr (es ! length xs)"
proof -
  from assms(2) have a: "list_all2 (\<lambda>s e. build k c s = Inr e) (xs @ x # ys) es"
    by (simp add: entities_all2)
  then have l: "length es = length xs + 1 + length ys"
    by (auto dest: list_all2_lengthD)
  from a have "build k c ((xs @ x # ys) ! length xs) = Inr (es ! length xs)"
    by (rule list_all2_nthD) simp
  with assms(1) l show ?thesis by (simp add: build_falsy)
qed

lemma providence_none:
  assumes "providence k PNone ow org s = (Ok, s1)"
  shows "\<exists>e coll. k ''AnalysisSoftware'' [] [] = Inr e
      \<and> k ''GenericCollection'' [PStr ''AnalysisSoftwareList'', PList [e]] [] = Inr coll"
proof -
  from providence_success [OF assms] obtain es coll where
    a: "list_all2 (\<lambda>x e. build k ''AnalysisSoftware'' x = Inr e) [PNone] es"
    and b: "k ''GenericCollection'' [PStr ''AnalysisSoftwareList'', PList es] [] = Inr coll"
    by auto
  from a obtain e where "es = [e]" "build k ''AnalysisSoftware'' PNone = Inr e"
    by (auto simp: list_all2_Cons1)
  with b show ?thesis by (auto simp: build_falsy)
qed

lemma inputs_none:
  assumes "inputs k PNone PNone PNone s = (Ok, s2)"
  shows "\<exists>e1 e2 e3 node. k ''SourceFile'' [] [] = Inr e1 \<and> k ''SearchDatabase'' [] [] = Inr e2
      \<and> k ''SpectraData'' [] [] = Inr e3
      \<and> k ''Inputs'' [PList [e1], PList [e2], PList [e3]] [] = Inr node"
proof -
  from inputs_success [OF assms] obtain sf sd sp node where
    a: "list_all2 (\<lambda>x e. build k ''SourceFile'' x = Inr e) [PNone] sf"
       "list_all2 (\<lambda>x e. build k ''SearchDatabase'' x = Inr e) [PNone] sd"
       "list_all2 (\<lambda>x e. build k ''SpectraData'' x = Inr e) [PNone] sp"
    and b: "k ''Inputs'' [PList sf, PList sd, PList sp] [] = Inr node"
    by auto
  from a obtain e1 e2 e3 where "sf = [e1]" "sd = [e2]" "sp = [e3]"
    "build k ''SourceFile'' PNone = Inr e1" "build k ''SearchDatabase'' PNone = Inr e2"
    "build k ''SpectraData'' PNone = Inr e3"
    by (auto simp: list_all2_Cons1)
  with b show ?thesis by (auto simp: build_falsy)
qed

lemma protocol_arguments_none:
  assumes "protocol_arguments k st asid pid asp PNone PNone ft pt thr = Inr args"
  shows "\<exists>e m. k ''Enzyme'' [] [] = Inr e \<and> k ''SearchModification'' [] [] = Inr m
      \<and> args ! 3 = asp \<and> args ! 4 = PList [e] \<and> args ! 5 = PList [m]"
proof -
  from protocol_arguments_success [OF assms] obtain es ms ft1 pt1 th where
    a: "args = [st, asid, pid, asp, PList es, PList ms, ft1, pt1, th]"
    and b: "entities k ''Enzyme'' PNone = Inr es" "entities k ''SearchModification'' PNone = Inr ms"
    by blast
  from b obtain e m where "es = [e]" "k ''Enzyme'' [] [] = Inr e" "ms = [m]"
    "k ''SearchModification'' [] [] = Inr m"
    using entities_singleton by blast
  with a show ?thesis by simp
qed

lemma sequence_collection_none:
  assumes "writer s = Some w" and "\<not> finished w"
    and "k ''DBSequence'' [] [] = Inr d" and "k ''Peptide'' [] [] = Inr p"
    and "k ''PeptideEvidence'' [] [] = Inr pe"
  shows "sequence_collection k PNone PNone PNone s
      = (Ok, s\<lparr>writer := Some (w\<lparr>events := events w @
           [StartEl ''SequenceCollection'' [], Node d, Node p, Node pe,
            EndEl ''SequenceCollection'']\<rparr>)\<rparr>)"
  using sequence_collection_ok(2) [of s w k PNone "[d]" PNone "[p]" PNone "[pe]"] assms
  by (simp add: build_falsy)

text \<open>
  C9 (as amended). An item that is \<^verbatim>\<open>None\<close> or otherwise falsy is replaced by the
  empty mapping, so its entity is the result of calling the constructor with no
  argument; \<^verbatim>\<open>None\<close> given as a whole argument is wrapped into a one-element list and
  yields exactly that one entity, and a falsy item inside a list yields one at its
  position. This holds for \<open>software\<close> of \<open>providence\<close>, the three arguments of
  \<open>inputs\<close>, the three arguments of \<open>sequence_collection\<close> (when the generator reaches
  the item) and \<open>enzymes\<close> and \<open>modification_params\<close> of
  \<open>spectrum_identification_protocol\<close>; \<open>additional_search_params\<close> is handed on as
  it was given.
\<close>

theorem falsy_item_builds_default_entity:
  "(\<not> truthy x \<longrightarrow> build k c x = k c [] [] \<and> produce k (EntityOf c) x = k c [] [])
   \<and> ensure_iterable PNone = PList [PNone]
   \<and> entities k c PNone = try_with (k c [] []) (\<lambda>e. Inr [e])
   \<and> (\<not> truthy x \<and> entities k c (PList (xs @ x # ys)) = Inr es \<longrightarrow>
         length es = length xs + 1 + length ys \<and> k c [] [] = Inr (es ! length xs))
   \<and> (providence k PNone ow org s = (Ok, s1) \<longrightarrow>
         (\<exists>e coll. k ''AnalysisSoftware'' [] [] = Inr e
            \<and> k ''GenericCollection'' [PStr ''AnalysisSoftwareList'', PList [e]] [] = Inr coll))
   \<and> (inputs k PNone PNone PNone s = (Ok, s2) \<longrightarrow>
         (\<exists>e1 e2 e3 node. k ''SourceFile'' [] [] = Inr e1 \<and> k ''SearchDatabase'' [] [] = Inr e2
            \<and> k ''SpectraData'' [] [] = Inr e3
            \<and> k ''Inputs'' [PList [e1], PList [e2], PList [e3]] [] = Inr node))
   \<and> (protocol_arguments k st asid pid asp PNone PNone ft pt thr = Inr args \<longrightarrow>
         (\<exists>e m. k ''Enzyme'' [] [] = Inr e \<and> k ''SearchModification'' [] [] = Inr m
            \<and> args ! 3 = asp \<and> args ! 4 = PList [e] \<and> args ! 5 = PList [m]))
   \<and> (writer s = Some w \<and> \<not> finished w
        \<and> k ''DBSequence'' [] [] = Inr d \<and> k ''Peptide'' [] [] = Inr p
        \<and> k ''PeptideEvidence'' [] [] = Inr pe \<longrightarrow>
         sequence_collection k PNone PNone PNone s
           = (Ok, s\<lparr>writer := Some (w\<lparr>events := events w @
                [StartEl ''SequenceCollection'' [], Node d, Node p, Node pe,
                 EndEl ''SequenceCollection'']\<rparr>)\<rparr>))"
proof -
  have 1: "\<not> truthy x \<longrightarrow> build k c x = k c [] [] \<and> produce k (EntityOf c) x = k c [] []"
    by (simp add: build_falsy)
  have 2: "ensure_iterable PNone = PList [PNone]"
    by (simp add: ensure_iterable_def)
  have 3: "\<not> truthy x \<and> entities k c (PList (xs @ x # ys)) = Inr es \<longrightarrow>
         length es = length xs + 1 + length ys \<and> k c [] [] = Inr (es ! length xs)"
    using falsy_item_in_list [of x k c xs ys es] by blast
  have 4: "writer s = Some w \<and> \<not> finished w
        \<and> k ''DBSequence'' [] [] = Inr d \<and> k ''Peptide'' [] [] = Inr p
        \<and> k ''PeptideEvidence'' [] [] = Inr pe \<longrightarrow>
         sequence_collection k PNone PNone PNone s
           = (Ok, s\<lparr>writer := Some (w\<lparr>events := events w @
                [StartEl ''SequenceCollection'' [], Node d, Node p, Node pe,
                 EndEl ''SequenceCollection'']\<rparr>)\<rparr>)"
    using sequence_collection_none [of s w k d p pe] by blast
  from 1 2 3 4 entities_none [of k c] providence_none [of k ow org s s1]
    inputs_none [of k s s2] protocol_arguments_none [of k st asid pid asp ft pt thr args]
  show ?thesis by blast
qed

text \<open>
  C9, witness: \<open>inputs(None, None, None)\<close> in the entered session writes an
  \<^verbatim>\<open>Inputs\<close> collection of three one-element lists, each entity built with no
  argument; a list with a \<^verbatim>\<open>None\<close> between two mappings gives three entities.
\<close>

theorem falsy_item_builds_default_entity_witness:
  "inputs demo_catalogue PNone PNone PNone open_session
     = (Ok, open_session\<lparr>writer := Some \<lparr>scopes = [''MzIdentML''],
          events = [StartEl ''MzIdentML'' [],
            Node (PObj ''Inputs''
              [(''args'', PList
                 [PList [PObj ''SourceFile'' [(''args'', PList []), (''id'', PInt 1)]],
                  PList [PObj ''SearchDatabase'' [(''args'', PList []), (''id'', PInt 1)]],
                  PList [PObj ''SpectraData'' [(''args'', PList []), (''id'', PInt 1)]]]),
               (''id'', PInt 1)])],
          flushed = [], finished = False\<rparr>\<rparr>)
   \<and> (\<exists>e1 e2 e3. demo_catalogue ''SourceFile'' [] [] = Inr e1
         \<and> demo_catalogue ''SearchDatabase'' [] [] = Inr e2
         \<and> demo_catalogue ''SpectraData'' [] [] = Inr e3)
   \<and> \<not> truthy PNone
   \<and> entities demo_catalogue ''Enzyme''
        (PList ([PDict [(''name'', PStr ''Trypsin'')]] @ PNone # [PDict [(''name'', PStr ''Lys-C'')]]))
      = Inr [PObj ''Enzyme'' [(''name'', PStr ''Trypsin''), (''args'', PList []), (''id'', PInt 1)],
             PObj ''Enzyme'' [(''args'', PList []), (''id'', PInt 1)],
             PObj ''Enzyme'' [(''name'', PStr ''Lys-C''), (''args'', PList []), (''id'', PInt 1)]]
   \<and> demo_catalogue ''Enzyme'' [] [] = Inr (PObj ''Enzyme'' [(''args'', PList []), (''id'', PInt 1)])"
proof -
  let ?s2 = "open_session\<lparr>writer := Some \<lparr>scopes = [''MzIdentML''],
          events = [StartEl ''MzIdentML'' [],
            Node (PObj ''Inputs''
              [(''args'', PList
                 [PList [PObj ''SourceFile'' [(''args'', PList []), (''id'', PInt 1)]],
                  PList [PObj ''SearchDatabase'' [(''args'', PList []), (''id'', PInt 1)]],
                  PList [PObj ''SpectraData'' [(''args'', PList []), (''id'', PInt 1)]]]),
               (''id'', PInt 1)])],
          flushed = [], finished = False\<rparr>\<rparr>"
  let ?es = "[PObj ''Enzyme'' [(''name'', PStr ''Trypsin''), (''args'', PList []), (''id'', PInt 1)],
             PObj ''Enzyme'' [(''args'', PList []), (''id'', PInt 1)],
             PObj ''Enzyme'' [(''name'', PStr ''Lys-C''), (''args'', PList []), (''id'', PInt 1)]]"
  have run: "inputs demo_catalogue PNone PNone PNone open_session = (Ok, ?s2)"
    by (simp add: inputs_def on_value_def entities_eq build_falsy demo_catalogue_def
        write_new_def component_write_def on_writer_def serializer_write_def open_session_eq)
  have ent: "\<not> truthy PNone \<and> entities demo_catalogue ''Enzyme''
        (PList ([PDict [(''name'', PStr ''Trypsin'')]] @ PNone # [PDict [(''name'', PStr ''Lys-C'')]]))
      = Inr ?es"
    by (simp add: entities_eq build_falsy build_mapping demo_catalogue_def)
  note t = falsy_item_builds_default_entity
    [where k = demo_catalogue and s = open_session and ?s2.0 = ?s2 and x = PNone
       and c = "''Enzyme''" and xs = "[PDict [(''name'', PStr ''Trypsin'')]]"
       and ys = "[PDict [(''name'', PStr ''Lys-C'')]]" and es = ?es]
  from t [THEN conjunct2, THEN conjunct2, THEN conjunct2, THEN conjunct2, THEN conjunct2,
          THEN conjunct1] run
  have a: "\<exists>e1 e2 e3. demo_catalogue ''SourceFile'' [] [] = Inr e1
         \<and> demo_catalogue ''SearchDatabase'' [] [] = Inr e2
         \<and> demo_catalogue ''SpectraData'' [] [] = Inr e3"
    by blast
  from t [THEN conjunct2, THEN conjunct2, THEN conjunct2, THEN conjunct1] ent
  have b: "demo_catalogue ''Enzyme'' [] [] = Inr (PObj ''Enzyme'' [(''args'', PList []), (''id'', PInt 1)])"
    by simp
  from run a ent b show ?thesis by blast
qed

text \<open>
  C9, counterexample: with \<^verbatim>\<open>None\<close> given both as \<open>additional_search_params\<close> and as
  \<open>enzymes\<close>, the enzymes become one \<^verbatim>\<open>Enzyme\<close> built with no argument, but the
  search parameters stay \<^verbatim>\<open>None\<close>: no entity is built for them.
\<close>

theorem additional_search_params_none_counterexample:
  "protocol_arguments demo_catalogue (PStr ''ms-ms search'') (PInt 1) (PInt 1)
       PNone PNone (PTuple []) PNone PNone PNone
     = Inr [PStr ''ms-ms search'', PInt 1, PInt 1, PNone,
            PList [PObj ''Enzyme'' [(''args'', PList []), (''id'', PInt 1)]], PList [], PNone, PNone,
            PObj ''Threshold'' [(''args'', PList [PNone]), (''id'', PInt 1)]]"
  by (simp add: protocol_arguments_def try_with_def entities_eq build_falsy tolerance_def
      demo_catalogue_def)

section \<open>The identification list\<close>

lemma converting_eq: "converting v = try_with (iter_items v) (\<lambda>ss. Inr (Stream ResultOf ss))"
  by (simp add: converting_def generator_def)

lemma converting_mapping: "converting (PDict m) = Inr (Stream ResultOf (map (\<lambda>p. PStr (fst p)) m))"
  by (simp add: converting_eq try_with_def)

lemma generator_normalized:
  "generator th (ensure_iterable v) = Inr (Stream th (spec_normalized v))"
  by (simp add: generator_def try_with_def iter_items_ensure_iterable)

lemma collection_write1_ok:
  assumes "\<not> finished w" and "comprehension (produce k th) ss = Inr rs"
  shows "collection_write k (n, at) [Stream th ss] w
      = (Ok, w\<lparr>events := events w @ [StartEl n at] @ map Node rs @ [EndEl n]\<rparr>, [Stream th []])"
proof -
  let ?w1 = "w\<lparr>scopes := n # scopes w, events := events w @ [StartEl n at]\<rparr>"
  let ?w2 = "w\<lparr>scopes := n # scopes w, events := events w @ StartEl n at # map Node rs\<rparr>"
  have e: "handle_enter (n, at) w = Inr ?w1" using assms(1) by (simp add: handle_enter_def)
  have "\<not> finished ?w1" using assms(1) by simp
  from write_each_ok [OF this assms(2)]
  have a: "write_all k [Stream th ss] ?w1 = (Ok, ?w2, [Stream th []])"
    by simp
  have x: "handle_exit (n, at) ?w2
      = Inr (w\<lparr>events := events w @ [StartEl n at] @ map Node rs @ [EndEl n]\<rparr>)"
    using assms(1) by (simp add: handle_exit_def)
  show ?thesis
    unfolding collection_write_def e by (simp only: sum.case a prod.case result.case x)
qed

lemma spectrum_identification_list_ok:
  assumes "writer s = Some w" and "\<not> finished w" and "iter_items v = Inr ss"
    and "list_all2 (\<lambda>x r. produce k ResultOf x = Inr r) ss rs"
  shows "spectrum_identification_list k i v s
      = (Ok, s\<lparr>writer := Some (w\<lparr>events := events w
             @ [StartEl ''SpectrumIdentificationList'' [(''id'', i)]] @ map Node rs
             @ [EndEl ''SpectrumIdentificationList'']\<rparr>)\<rparr>)"
proof -
  have c: "comprehension (produce k ResultOf) ss = Inr rs"
    using assms(4) by (simp add: comprehension_all2)
  have g: "converting v = Inr (Stream ResultOf ss)"
    using assms(3) by (simp add: converting_eq try_with_def)
  show ?thesis
    unfolding spectrum_identification_list_def g on_value_def
    by (simp only: sum.case stream_collection_ok [OF assms(1) collection_write1_ok [OF assms(2) c]])
qed

lemma result_of_key: "produce k ResultOf (PStr t) = Inl TypeError"
proof (cases t)
  case Nil
  then show ?thesis
    by (simp add: call_kw_falsy spectrum_identification_result_def bind_call_def
        result_required_def try_with_def)
next
  case (Cons a list)
  then show ?thesis
    by (simp add: call_kw_def or_empty_def try_with_def)
qed

lemma lone_mapping_as_results:
  assumes "writer s = Some w" and "\<not> finished w"
  shows "spectrum_identification_list k i (PDict ((t, x) # m)) s
      = (Raised TypeError,
         s\<lparr>writer := Some (w\<lparr>events := events w
              @ [StartEl ''SpectrumIdentificationList'' [(''id'', i)],
                 EndEl ''SpectrumIdentificationList'']\<rparr>)\<rparr>)"
proof -
  have c: "comprehension (produce k ResultOf) [] = Inr []" by simp
  have "collection_write k (''SpectrumIdentificationList'', [(''id'', i)])
          [Stream ResultOf ([] @ PStr t # map (\<lambda>p. PStr (fst p)) m)] w
      = (Raised TypeError,
         w\<lparr>events := events w @ [StartEl ''SpectrumIdentificationList'' [(''id'', i)]]
              @ map Node [] @ [EndEl ''SpectrumIdentificationList'']\<rparr>,
         [Stream ResultOf []])"
    by (rule collection_write_late_error [OF assms(2) c result_of_key])
  then have "collection_write k (''SpectrumIdentificationList'', [(''id'', i)])
          [Stream ResultOf (PStr t # map (\<lambda>p. PStr (fst p)) m)] w
      = (Raised TypeError,
         w\<lparr>events := events w @ [StartEl ''SpectrumIdentificationList'' [(''id'', i)],
              EndEl ''SpectrumIdentificationList'']\<rparr>,
         [Stream ResultOf []])"
    by simp
  from stream_collection_ok [OF assms(1) this] show ?thesis
    by (simp add: spectrum_identification_list_def converting_mapping on_value_def)
qed

lemma spectrum_identification_list_unset:
  assumes "writer s = None" and "iter_items v = Inr ss"
  shows "spectrum_identification_list k i v s = (Raised AttributeError, s)"
  using assms
  by (simp add: spectrum_identification_list_def converting_eq try_with_def on_value_def
      stream_collection_unset)

lemma controlled_vocabularies_mapping:
  assumes "writer s = Some w" and "\<not> finished w"
    and "k ''CVList'' [PList (vocabularies s @ map (\<lambda>p. PStr (fst p)) m)] [] = Inr c"
  shows "controlled_vocabularies k (PDict m) s
      = (Ok, s\<lparr>vocabularies := vocabularies s @ map (\<lambda>p. PStr (fst p)) m,
                writer := Some (w\<lparr>events := events w @ [Node c]\<rparr>)\<rparr>)"
  using assms by (simp add: controlled_vocabularies_ok [where w = w and c = c])

text \<open>
  C10 (as amended). \<open>spectrum_identification_list\<close> does not normalise
  \<open>identification_results\<close>: the generator ranges over the argument itself, so a lone
  mapping is iterated over its keys, where a normalising operation would range over the
  one-element list holding the mapping. The results are built one by one as the write
  takes them, each reached once, and none before: on an unset writer the operation
  raises the writer's \<^verbatim>\<open>AttributeError\<close> whatever the items are. With a lone mapping
  the first key is no mapping and the write stops there with a \<^verbatim>\<open>TypeError\<close>, after
  the element has been opened; the element is closed on the way out. The list is not
  alone in this: \<open>controlled_vocabularies\<close> iterates its argument as it is, too, and
  extends the vocabulary list by the keys of a lone mapping.
\<close>

theorem identification_results_not_normalized:
  "converting v = try_with (iter_items v) (\<lambda>ss. Inr (Stream ResultOf ss))
   \<and> converting (PDict m) = Inr (Stream ResultOf (map (\<lambda>p. PStr (fst p)) m))
   \<and> generator th (ensure_iterable (PDict m)) = Inr (Stream th [PDict m])
   \<and> (writer s0 = None \<and> iter_items v = Inr ss \<longrightarrow>
         spectrum_identification_list k i v s0 = (Raised AttributeError, s0))
   \<and> (writer s = Some w \<and> \<not> finished w \<and> iter_items v = Inr ss
        \<and> list_all2 (\<lambda>x r. produce k ResultOf x = Inr r) ss rs \<longrightarrow>
         spectrum_identification_list k i v s
           = (Ok, s\<lparr>writer := Some (w\<lparr>events := events w
                  @ [StartEl ''SpectrumIdentificationList'' [(''id'', i)]] @ map Node rs
                  @ [EndEl ''SpectrumIdentificationList'']\<rparr>)\<rparr>))
   \<and> (writer s = Some w \<and> \<not> finished w \<longrightarrow>
         spectrum_identification_list k i (PDict ((t, x) # m)) s
           = (Raised TypeError,
              s\<lparr>writer := Some (w\<lparr>events := events w
                   @ [StartEl ''SpectrumIdentificationList'' [(''id'', i)],
                      EndEl ''SpectrumIdentificationList'']\<rparr>)\<rparr>))
   \<and> (writer s = Some w \<and> \<not> finished w
        \<and> k ''CVList'' [PList (vocabularies s @ map (\<lambda>p. PStr (fst p)) m)] [] = Inr c \<longrightarrow>
         controlled_vocabularies k (PDict m) s
           = (Ok, s\<lparr>vocabularies := vocabularies s @ map (\<lambda>p. PStr (fst p)) m,
                     writer := Some (w\<lparr>events := events w @ [Node c]\<rparr>)\<rparr>))"
proof -
  have 1: "generator th (ensure_iterable (PDict m)) = Inr (Stream th [PDict m])"
    by (simp add: generator_normalized)
  have 2: "writer s = Some w \<and> \<not> finished w \<and> iter_items v = Inr ss
        \<and> list_all2 (\<lambda>x r. produce k ResultOf x = Inr r) ss rs \<longrightarrow>
         spectrum_identification_list k i v s
           = (Ok, s\<lparr>writer := Some (w\<lparr>events := events w
                  @ [StartEl ''SpectrumIdentificationList'' [(''id'', i)]] @ map Node rs
                  @ [EndEl ''SpectrumIdentificationList'']\<rparr>)\<rparr>)"
    using spectrum_identification_list_ok [of s w v ss k rs i] by blast
  have 3: "writer s = Some w \<and> \<not> finished w \<longrightarrow>
         spectrum_identification_list k i (PDict ((t, x) # m)) s
           = (Raised TypeError,
              s\<lparr>writer := Some (w\<lparr>events := events w
                   @ [StartEl ''SpectrumIdentificationList'' [(''id'', i)],
                      EndEl ''SpectrumIdentificationList'']\<rparr>)\<rparr>)"
    using lone_mapping_as_results [of s w k i t x m] by blast
  have 4: "writer s = Some w \<and> \<not> finished w
        \<and> k ''CVList'' [PList (vocabularies s @ map (\<lambda>p. PStr (fst p)) m)] [] = Inr c \<longrightarrow>
         controlled_vocabularies k (PDict m) s
           = (Ok, s\<lparr>vocabularies := vocabularies s @ map (\<lambda>p. PStr (fst p)) m,
                     writer := Some (w\<lparr>events := events w @ [Node c]\<rparr>)\<rparr>)"
    using controlled_vocabularies_mapping [of s w k m c] by blast
  have 5: "writer s0 = None \<and> iter_items v = Inr ss \<longrightarrow>
         spectrum_identification_list k i v s0 = (Raised AttributeError, s0)"
    using spectrum_identification_list_unset [of s0 v ss k i] by blast
  from 1 2 3 4 5 converting_eq [of v] converting_mapping [of m] show ?thesis by blast
qed

text \<open>
  C10, witness: a list of one result is written as one result; the same result given as
  a lone mapping raises a \<^verbatim>\<open>TypeError\<close> at its first key, between the start and the
  end of the element; before entry no result is built.
\<close>

theorem identification_results_not_normalized_witness:
  "spectrum_identification_list demo_catalogue (PInt 1)
       (PList [PDict [(''spectrum_id'', PStr ''scan=1''), (''id'', PInt 1)]]) open_session
     = (Ok, open_session\<lparr>writer := Some \<lparr>scopes = [''MzIdentML''],
          events = [StartEl ''MzIdentML'' [],
            StartEl ''SpectrumIdentificationList'' [(''id'', PInt 1)],
            Node (PObj ''SpectrumIdentificationResult''
              [(''spectra_data_id'', PInt 1), (''spectrum_id'', PStr ''scan=1''), (''id'', PInt 1),
               (''identifications'', PList []), (''args'', PList []), (''id'', PInt 1)]),
            EndEl ''SpectrumIdentificationList''],
          flushed = [], finished = False\<rparr>\<rparr>)
   \<and> spectrum_identification_list demo_catalogue (PInt 1)
       (PDict [(''spectrum_id'', PStr ''scan=1''), (''id'', PInt 1)]) open_session
     = (Raised TypeError, open_session\<lparr>writer := Some
          \<lparr>scopes = [''MzIdentML''],
           events = [StartEl ''MzIdentML'' [],
                     StartEl ''SpectrumIdentificationList'' [(''id'', PInt 1)],
                     EndEl ''SpectrumIdentificationList''],
           flushed = [], finished = False\<rparr>\<rparr>)
   \<and> spectrum_identification_list strict_catalogue (PInt 1) (PList [PNone]) fresh_session
     = (Raised AttributeError, fresh_session)"
proof -
  let ?w = "\<lparr>scopes = [''MzIdentML''], events = [StartEl ''MzIdentML'' []],
             flushed = [], finished = False\<rparr>"
  let ?r = "PObj ''SpectrumIdentificationResult''
              [(''spectra_data_id'', PInt 1), (''spectrum_id'', PStr ''scan=1''), (''id'', PInt 1),
               (''identifications'', PList []), (''args'', PList []), (''id'', PInt 1)]"
  let ?kw = "[(''spectrum_id'', PStr ''scan=1''), (''id'', PInt 1)]"
  have r: "spectrum_identification_result demo_catalogue ?kw = Inr ?r"
    by (simp add: result_ok result_required_def result_defaults_def for_each_in_def try_with_def
        ensure_iterable_def demo_catalogue_def)
  have h: "writer open_session = Some ?w \<and> \<not> finished ?w"
    by (simp add: open_session_eq)
  have h2: "iter_items (PList [PDict ?kw]) = Inr [PDict ?kw]
      \<and> list_all2 (\<lambda>x r. produce demo_catalogue ResultOf x = Inr r) [PDict ?kw] [?r]"
    using r by (simp add: call_kw_mapping)
  note t = identification_results_not_normalized
    [where k = demo_catalogue and s = open_session and w = ?w and i = "PInt 1"
       and v = "PList [PDict ?kw]" and ss = "[PDict ?kw]" and rs = "[?r]"
       and t = "''spectrum_id''" and x = "PStr ''scan=1''" and m = "[(''id'', PInt 1)]"]
  from t [THEN conjunct2, THEN conjunct2, THEN conjunct2, THEN conjunct2, THEN conjunct1] h h2
  have a: "spectrum_identification_list demo_catalogue (PInt 1) (PList [PDict ?kw]) open_session
      = (Ok, open_session\<lparr>writer := Some (?w\<lparr>events := events ?w
             @ [StartEl ''SpectrumIdentificationList'' [(''id'', PInt 1)]] @ map Node [?r]
             @ [EndEl ''SpectrumIdentificationList'']\<rparr>)\<rparr>)"
    by blast
  from t [THEN conjunct2, THEN conjunct2, THEN conjunct2, THEN conjunct2, THEN conjunct2,
          THEN conjunct1] h
  have b: "spectrum_identification_list demo_catalogue (PInt 1) (PDict ?kw) open_session
      = (Raised TypeError,
         open_session\<lparr>writer := Some (?w\<lparr>events := events ?w
              @ [StartEl ''SpectrumIdentificationList'' [(''id'', PInt 1)],
                 EndEl ''SpectrumIdentificationList'']\<rparr>)\<rparr>)"
    by blast
  have u: "writer fresh_session = None \<and> iter_items (PList [PNone]) = Inr [PNone]"
    by (simp add: fresh_session_def MzIdentMLWriter_init_def)
  from identification_results_not_normalized
    [where k = strict_catalogue and ?s0.0 = fresh_session and i = "PInt 1"
       and v = "PList [PNone]" and ss = "[PNone]",
     THEN conjunct2, THEN conjunct2, THEN conjunct2, THEN conjunct1] u
  have c: "spectrum_identification_list strict_catalogue (PInt 1) (PList [PNone]) fresh_session
      = (Raised AttributeError, fresh_session)"
    by blast
  from a b c show ?thesis by simp
qed

text \<open>
  C10, counterexample: \<open>controlled_vocabularies\<close>, another section operation, given a
  lone mapping, does not wrap it either: the vocabulary list is extended by the
  mapping's keys, not by the mapping.
\<close>

theorem controlled_vocabularies_lone_mapping_counterexample:
  "vocabularies (snd (controlled_vocabularies demo_catalogue
       (PDict [(''id'', PStr ''PSI-MS''), (''uri'', PStr ''psi-ms.obo'')]) open_session))
     = [PStr ''id'', PStr ''uri'']
   \<and> vocabularies (snd (controlled_vocabularies demo_catalogue
       (PDict [(''id'', PStr ''PSI-MS''), (''uri'', PStr ''psi-ms.obo'')]) open_session))
     \<noteq> [PDict [(''id'', PStr ''PSI-MS''), (''uri'', PStr ''psi-ms.obo'')]]
   \<and> fst (controlled_vocabularies demo_catalogue
       (PDict [(''id'', PStr ''PSI-MS''), (''uri'', PStr ''psi-ms.obo'')]) open_session) = Ok"
  by (simp add: controlled_vocabularies_def on_value_def Let_def write_new_def demo_catalogue_def
      component_write_def on_writer_def serializer_write_def open_session_eq)

end
